theory Spec2Isabelle
  imports Main "HOL-Library.Word" "HOL-Library.Signed_Division"
begin

unbundle bit_operations_syntax

section \<open>Go values\<close>

text \<open>
  The source is \<^verbatim>\<open>golang/tools/tools.go\<close>. A Go \<^verbatim>\<open>byte\<close> is an 8-bit word and a
  \<^verbatim>\<open>[]byte\<close> a list of them. Go's \<^verbatim>\<open>int\<close> is modelled at its 64-bit width: \<open>*\<close> wraps
  around, \<^verbatim>\<open>/\<close> truncates towards zero (\<open>go_div\<close>), and the conversions \<^verbatim>\<open>uint16(x)\<close> and
  \<^verbatim>\<open>uint32(x)\<close> keep the low bits (\<open>ucast\<close>). \<^verbatim>\<open>len(b)\<close> is a natural number: a slice
  that a Go program holds is shorter than \<open>2 ^ 63 - 44\<close> bytes, so \<^verbatim>\<open>len(pcmBytes) + 44\<close>
  does not wrap and \<^verbatim>\<open>make\<close> never sees a negative size.
\<close>

type_synonym byte = "8 word"
type_synonym go_int = "64 word"

text \<open>
  The errors of the package. The three messages built with \<^verbatim>\<open>fmt.Errorf\<close> in
  \<^verbatim>\<open>ConcatWavBytes\<close> are named after the error taxonomy of the specification:
  \<open>InvalidFormat\<close> is "invalid WAV file" (line 29), \<open>FormatMismatch\<close> is the message of
  line 43 (all WAV files must have the same parameters), \<open>EmptyInput\<close> the message of
  line 51 (params is nil). \<open>LibError\<close> is an error value handed over unchanged from the
  WAV library or the operating system (lines 34, 57, 66, 71, 78).
\<close>

datatype error = InvalidFormat | FormatMismatch | EmptyInput | LibError string

definition go_div :: "go_int \<Rightarrow> go_int \<Rightarrow> go_int" where
  "go_div a b = word_of_int (sint a sdiv sint b)"

text \<open>\<^verbatim>\<open>[]byte("RIFF")\<close>: the bytes of an ASCII string.\<close>

definition bytes_of :: "string \<Rightarrow> byte list" where
  "bytes_of s = map of_char s"

text \<open>
  \<^verbatim>\<open>copy(dst[lo:hi], src)\<close> overwrites \<open>min (hi - lo) (length src)\<close> bytes of \<open>dst\<close>
  from offset \<open>lo\<close> on.
\<close>

definition copy :: "byte list \<Rightarrow> nat \<Rightarrow> nat \<Rightarrow> byte list \<Rightarrow> byte list" where
  "copy dst lo hi src =
     take lo dst @ take (min (hi - lo) (length src)) src @
     drop (lo + min (hi - lo) (length src)) dst"

text \<open>
  \<^verbatim>\<open>encoding/binary\<close>, little endian. \<open>le16\<close> and \<open>le32\<close> are the bytes that
  \<^verbatim>\<open>PutUint16\<close> and \<^verbatim>\<open>PutUint32\<close> store (\<^verbatim>\<open>b[0] = byte(v)\<close>, \<^verbatim>\<open>b[1] = byte(v >> 8)\<close>, ...);
  \<open>Uint16\<close> and \<open>Uint32\<close> read them back
  (\<^verbatim>\<open>uint32(b[0]) | uint32(b[1])<<8 | uint32(b[2])<<16 | uint32(b[3])<<24\<close>). Go panics
  when the slice is too short; the readers below are only applied behind a length check.
\<close>

definition le16 :: "16 word \<Rightarrow> byte list" where
  "le16 v = [ucast v, ucast (drop_bit 8 v)]"

definition le32 :: "32 word \<Rightarrow> byte list" where
  "le32 v = [ucast v, ucast (drop_bit 8 v), ucast (drop_bit 16 v), ucast (drop_bit 24 v)]"

definition PutUint16 :: "byte list \<Rightarrow> nat \<Rightarrow> nat \<Rightarrow> 16 word \<Rightarrow> byte list" where
  "PutUint16 dst lo hi v = copy dst lo hi (le16 v)"

definition PutUint32 :: "byte list \<Rightarrow> nat \<Rightarrow> nat \<Rightarrow> 32 word \<Rightarrow> byte list" where
  "PutUint32 dst lo hi v = copy dst lo hi (le32 v)"

fun Uint16 :: "byte list \<Rightarrow> 16 word" where
  "Uint16 (b0 # b1 # _) = ucast b0 OR push_bit 8 (ucast b1)"
| "Uint16 _ = 0"

fun Uint32 :: "byte list \<Rightarrow> 32 word" where
  "Uint32 (b0 # b1 # b2 # b3 # _) =
     ucast b0 OR push_bit 8 (ucast b1) OR push_bit 16 (ucast b2) OR push_bit 24 (ucast b3)"
| "Uint32 _ = 0"

section \<open>Pcm2Wav\<close>

text \<open>
  \<^verbatim>\<open>Pcm2Wav\<close> (lines 88 to 127), statement by statement: \<open>wavData\<close> is allocated zeroed
  and the thirteen header fields and the payload are stored into it in turn. The function
  has one exit, \<^verbatim>\<open>return wavData, nil\<close>.
\<close>

definition Pcm2Wav :: "byte list \<Rightarrow> go_int \<Rightarrow> go_int \<Rightarrow> go_int \<Rightarrow> error + byte list" where
  "Pcm2Wav pcmBytes sampleRate numChannels bitDepth =
     (let headerSize = 44;
          fileSize = length pcmBytes + headerSize;
          wavData = replicate fileSize 0;
          wavData = copy wavData 0 4 (bytes_of ''RIFF'');
          wavData = PutUint32 wavData 4 8 (word_of_nat (fileSize - 8));
          wavData = copy wavData 8 12 (bytes_of ''WAVE'');
          wavData = copy wavData 12 16 (bytes_of ''fmt '');
          wavData = PutUint32 wavData 16 20 16;
          wavData = PutUint16 wavData 20 22 1;
          wavData = PutUint16 wavData 22 24 (ucast numChannels);
          wavData = PutUint32 wavData 24 28 (ucast sampleRate);
          wavData = PutUint32 wavData 28 32
                      (ucast (go_div (sampleRate * numChannels * bitDepth) 8));
          wavData = PutUint16 wavData 32 34 (ucast (go_div (numChannels * bitDepth) 8));
          wavData = PutUint16 wavData 34 36 (ucast bitDepth);
          wavData = copy wavData 36 40 (bytes_of ''data'');
          wavData = PutUint32 wavData 40 44 (word_of_nat (length pcmBytes));
          wavData = copy wavData 44 (length wavData) pcmBytes
      in Inr wavData)"

text \<open>The 44 bytes that \<^verbatim>\<open>Pcm2Wav\<close> ends up storing in front of a payload of \<open>n\<close> bytes.\<close>

definition wav_header :: "nat \<Rightarrow> go_int \<Rightarrow> go_int \<Rightarrow> go_int \<Rightarrow> byte list" where
  "wav_header n sampleRate numChannels bitDepth =
     bytes_of ''RIFF'' @ le32 (word_of_nat (n + 36)) @ bytes_of ''WAVE'' @ bytes_of ''fmt '' @
     le32 16 @ le16 1 @ le16 (ucast numChannels) @ le32 (ucast sampleRate) @
     le32 (ucast (go_div (sampleRate * numChannels * bitDepth) 8)) @
     le16 (ucast (go_div (numChannels * bitDepth) 8)) @ le16 (ucast bitDepth) @
     bytes_of ''data'' @ le32 (word_of_nat n)"

section \<open>A parser for the canonical WAV container\<close>

text \<open>
  The round-trip property of the specification decodes the result of \<^verbatim>\<open>Pcm2Wav\<close> "with a
  standard WAV parser". \<open>parse_wav\<close> is that parser, written from the header table of the
  specification (section 4.2) and its data model (section 3), not from the source: it
  checks the four chunk tags, the size of the \<^verbatim>\<open>fmt\<close> chunk and the PCM format tag, reads
  \<^verbatim>\<open>NumChannels\<close>, \<^verbatim>\<open>SampleRate\<close> and \<^verbatim>\<open>BitsPerSample\<close> at offsets 22, 24 and 34, and
  takes as payload the \<^verbatim>\<open>Subchunk2Size\<close> bytes that follow the header.
\<close>

record wav_format =
  fmt_SampleRate :: int
  fmt_NumChannels :: int
  fmt_BitsPerSample :: int

definition slice_of :: "byte list \<Rightarrow> nat \<Rightarrow> nat \<Rightarrow> byte list" where
  "slice_of b lo hi = take (hi - lo) (drop lo b)"

definition parse_wav :: "byte list \<Rightarrow> (wav_format \<times> byte list) option" where
  "parse_wav b =
     (if length b < 44 then None
      else if slice_of b 0 4 \<noteq> bytes_of ''RIFF'' \<or> slice_of b 8 12 \<noteq> bytes_of ''WAVE'' \<or>
              slice_of b 12 16 \<noteq> bytes_of ''fmt '' \<or> Uint32 (slice_of b 16 20) \<noteq> 16 \<or>
              Uint16 (slice_of b 20 22) \<noteq> 1 \<or> slice_of b 36 40 \<noteq> bytes_of ''data''
      then None
      else Some (\<lparr>fmt_SampleRate = uint (Uint32 (slice_of b 24 28)),
                   fmt_NumChannels = uint (Uint16 (slice_of b 22 24)),
                   fmt_BitsPerSample = uint (Uint16 (slice_of b 34 36))\<rparr>,
                 take (unat (Uint32 (slice_of b 40 44))) (drop 44 b)))"

text \<open>Synthesis followed by parsing.\<close>

definition synth_then_parse ::
  "byte list \<Rightarrow> go_int \<Rightarrow> go_int \<Rightarrow> go_int \<Rightarrow> (wav_format \<times> byte list) option" where
  "synth_then_parse pcm sampleRate numChannels bitDepth =
     (case Pcm2Wav pcm sampleRate numChannels bitDepth of
        Inl e \<Rightarrow> None
      | Inr wavData \<Rightarrow> parse_wav wavData)"

section \<open>ConcatWavBytes\<close>

text \<open>
  \<^verbatim>\<open>audio.Format\<close> and \<^verbatim>\<open>audio.IntBuffer\<close> of the package \<^verbatim>\<open>go-audio/audio\<close>, with the
  fields the source reads. In Go the \<^verbatim>\<open>Format\<close> field is a pointer; the decoder always
  sets it, and nothing in \<^verbatim>\<open>ConcatWavBytes\<close> writes through it.
\<close>

record audio_Format =
  NumChannels :: int
  SampleRate :: int

record IntBuffer =
  Format :: audio_Format
  Data :: "int list"
  SourceBitDepth :: int

text \<open>
  \<^verbatim>\<open>ConcatWavBytes\<close> calls the WAV decoder and encoder of \<^verbatim>\<open>go-audio/wav\<close> and the file
  operations of package \<^verbatim>\<open>os\<close>; neither is part of the repository. The model takes them
  as a parameter: a record with one field for each call of the source. \<open>'f\<close> is the type
  of a file handle, \<open>'c\<close> the state of an encoder, \<open>'w\<close> the state of the file system,
  which every operation with an effect takes and returns. A decoder reads one buffer held in
  memory, so \<^verbatim>\<open>IsValidFile\<close>, \<^verbatim>\<open>FullPCMBuffer\<close> and the field \<^verbatim>\<open>BitDepth\<close> (a \<^verbatim>\<open>uint16\<close>) are
  functions of that buffer. A Go \<^verbatim>\<open>error\<close> of the library is its message.
\<close>

record ('f, 'c, 'w) wav_sys =
  IsValidFile :: "byte list \<Rightarrow> bool"
  FullPCMBuffer :: "byte list \<Rightarrow> string + IntBuffer"
  BitDepth :: "byte list \<Rightarrow> 16 word"
  CreateTemp :: "'w \<Rightarrow> (string + 'f) \<times> 'w"
  NewEncoder :: "'f \<Rightarrow> int \<Rightarrow> int \<Rightarrow> int \<Rightarrow> int \<Rightarrow> 'c"
  Write :: "'c \<Rightarrow> IntBuffer \<Rightarrow> 'w \<Rightarrow> (string + 'c) \<times> 'w"
  Close :: "'c \<Rightarrow> 'w \<Rightarrow> string option \<times> 'w"
  Seek :: "'f \<Rightarrow> int \<Rightarrow> int \<Rightarrow> 'w \<Rightarrow> 'w"
  ReadAll :: "'f \<Rightarrow> 'w \<Rightarrow> (string + byte list) \<times> 'w"
  File_Close :: "'f \<Rightarrow> 'w \<Rightarrow> 'w"

text \<open>
  The loop of lines 23 to 49 over \<open>wavBytes\<close>. Its state is the three variables declared
  in lines 19 to 21: \<open>combinedFrames\<close>, \<open>params\<close> (\<open>None\<close> for \<^verbatim>\<open>nil\<close>) and \<open>bitDepth\<close>.
  Each \<^verbatim>\<open>return nil, ...\<close> in the loop ends it with \<open>Inl\<close>.
\<close>

type_synonym loop_state = "IntBuffer list \<times> audio_Format option \<times> int"

fun decode_loop ::
  "('f, 'c, 'w) wav_sys \<Rightarrow> byte list list \<Rightarrow> loop_state \<Rightarrow> error + loop_state" where
  "decode_loop L [] st = Inr st"
| "decode_loop L (wavData # rest) (combinedFrames, params, bitDepth) =
     (if \<not> IsValidFile L wavData then Inl InvalidFormat
      else case FullPCMBuffer L wavData of
        Inl err \<Rightarrow> Inl (LibError err)
      | Inr buf \<Rightarrow>
          (case params of
             None \<Rightarrow>
               decode_loop L rest
                 (combinedFrames @ [buf], Some (Format buf), uint (BitDepth L wavData))
           | Some p \<Rightarrow>
               if SampleRate p \<noteq> SampleRate (Format buf) \<or>
                  NumChannels p \<noteq> NumChannels (Format buf)
               then Inl FormatMismatch
               else decode_loop L rest
                      (combinedFrames @ [buf], Some p, uint (BitDepth L wavData))))"

text \<open>The loop of lines 64 to 68: one \<^verbatim>\<open>encoder.Write\<close> for each buffer, until one fails.\<close>

fun write_loop ::
  "('f, 'c, 'w) wav_sys \<Rightarrow> 'c \<Rightarrow> IntBuffer list \<Rightarrow> 'w \<Rightarrow> (string + 'c) \<times> 'w" where
  "write_loop L encoder [] w = (Inr encoder, w)"
| "write_loop L encoder (buffer # rest) w =
     (case Write L encoder buffer w of
        (Inl err, w1) \<Rightarrow> (Inl err, w1)
      | (Inr encoder1, w1) \<Rightarrow> write_loop L encoder1 rest w1)"

text \<open>
  Lines 61 to 81, between the creation of the temporary file and its deferred
  \<^verbatim>\<open>Close\<close>: the encoder is created, fed and closed, and the file is read back from its
  start. The result of \<^verbatim>\<open>tempFile.Seek\<close> is dropped by the source.
\<close>

definition encode_frames ::
  "('f, 'c, 'w) wav_sys \<Rightarrow> 'f \<Rightarrow> audio_Format \<Rightarrow> int \<Rightarrow> IntBuffer list \<Rightarrow> 'w \<Rightarrow>
     (error + byte list) \<times> 'w" where
  "encode_frames L tempFile params bitDepth combinedFrames w =
     (let encoder = NewEncoder L tempFile (SampleRate params) bitDepth (NumChannels params) 1
      in case write_loop L encoder combinedFrames w of
           (Inl err, w1) \<Rightarrow> (Inl (LibError err), w1)
         | (Inr encoder1, w1) \<Rightarrow>
             (case Close L encoder1 w1 of
                (Some err, w2) \<Rightarrow> (Inl (LibError err), w2)
              | (None, w2) \<Rightarrow>
                  (case ReadAll L tempFile (Seek L tempFile 0 0 w2) of
                     (Inl err, w3) \<Rightarrow> (Inl (LibError err), w3)
                   | (Inr outputBuffer, w3) \<Rightarrow> (Inr outputBuffer, w3))))"

text \<open>
  \<^verbatim>\<open>ConcatWavBytes\<close> (lines 18 to 82). It returns the Go result (\<open>Inl\<close> an error, \<open>Inr\<close>
  the output buffer) and the file system it leaves. The decoding loop works in memory. The
  deferred \<^verbatim>\<open>tempFile.Close()\<close> of line 59 runs on every return that follows it. The
  source has no call that removes the temporary file.
\<close>

definition ConcatWavBytes ::
  "('f, 'c, 'w) wav_sys \<Rightarrow> byte list list \<Rightarrow> 'w \<Rightarrow> (error + byte list) \<times> 'w" where
  "ConcatWavBytes L wavBytes w =
     (case decode_loop L wavBytes ([], None, 0) of
        Inl e \<Rightarrow> (Inl e, w)
      | Inr (combinedFrames, params, bitDepth) \<Rightarrow>
          (case params of
             None \<Rightarrow> (Inl EmptyInput, w)
           | Some params \<Rightarrow>
               (case CreateTemp L w of
                  (Inl err, w1) \<Rightarrow> (Inl (LibError err), w1)
                | (Inr tempFile, w1) \<Rightarrow>
                    (case encode_frames L tempFile params bitDepth combinedFrames w1 of
                       (result, w2) \<Rightarrow> (result, File_Close L tempFile w2)))))"

text \<open>
  A buffer is accepted when both decoder calls of the loop succeed on it; two accepted
  buffers have the same parameters when line 41 finds nothing to reject.
\<close>

definition accepted :: "('f, 'c, 'w) wav_sys \<Rightarrow> byte list \<Rightarrow> bool" where
  "accepted L b = (IsValidFile L b \<and> \<not> isl (FullPCMBuffer L b))"

definition format_of :: "('f, 'c, 'w) wav_sys \<Rightarrow> byte list \<Rightarrow> audio_Format" where
  "format_of L b = Format (projr (FullPCMBuffer L b))"

definition same_params :: "('f, 'c, 'w) wav_sys \<Rightarrow> byte list \<Rightarrow> byte list \<Rightarrow> bool" where
  "same_params L a b =
     (SampleRate (format_of L a) = SampleRate (format_of L b) \<and>
      NumChannels (format_of L a) = NumChannels (format_of L b))"

definition samples_of :: "('f, 'c, 'w) wav_sys \<Rightarrow> byte list \<Rightarrow> int list" where
  "samples_of L b = Data (projr (FullPCMBuffer L b))"

section \<open>The WAV codec and the temporary file\<close>

text \<open>
  Modelled from the spec: the WAV decoder and encoder (\<^verbatim>\<open>go-audio/wav\<close>) and the temporary
  file (package \<^verbatim>\<open>os\<close>) are missing from the repository. \<open>go_wav\<close> below is an instance of
  the parameter of \<open>ConcatWavBytes\<close>, written from the data model of the specification: a
  WAV container is the 44-byte header followed by the little-endian PCM payload, a decoder
  parses the header (\<open>parse_wav\<close>) and decodes the whole payload into samples, and an
  encoder writes a header with the sample rate, bit depth and channel count it was created
  with, followed by the samples of each buffer in turn, cut to the encoder's bit depth.
  Samples of 8 bits are unsigned, samples of 16, 24 and 32 bits are signed.
\<close>

definition le24 :: "24 word \<Rightarrow> byte list" where
  "le24 v = [ucast v, ucast (drop_bit 8 v), ucast (drop_bit 16 v)]"

fun Uint24 :: "byte list \<Rightarrow> 24 word" where
  "Uint24 (b0 # b1 # b2 # _) = ucast b0 OR push_bit 8 (ucast b1) OR push_bit 16 (ucast b2)"
| "Uint24 _ = 0"

definition samples8 :: "byte list \<Rightarrow> int list" where
  "samples8 bs = map uint bs"

fun samples16 :: "byte list \<Rightarrow> int list" where
  "samples16 (b0 # b1 # bs) = sint (Uint16 [b0, b1]) # samples16 bs"
| "samples16 _ = []"

fun samples24 :: "byte list \<Rightarrow> int list" where
  "samples24 (b0 # b1 # b2 # bs) = sint (Uint24 [b0, b1, b2]) # samples24 bs"
| "samples24 _ = []"

fun samples32 :: "byte list \<Rightarrow> int list" where
  "samples32 (b0 # b1 # b2 # b3 # bs) = sint (Uint32 [b0, b1, b2, b3]) # samples32 bs"
| "samples32 _ = []"

definition decode_samples :: "int \<Rightarrow> byte list \<Rightarrow> int list" where
  "decode_samples bitDepth payload =
     (if bitDepth = 8 then samples8 payload
      else if bitDepth = 16 then samples16 payload
      else if bitDepth = 24 then samples24 payload
      else samples32 payload)"

definition encode_sample :: "int \<Rightarrow> int \<Rightarrow> byte list" where
  "encode_sample bitDepth v =
     (if bitDepth = 8 then [word_of_int v]
      else if bitDepth = 16 then le16 (word_of_int v)
      else if bitDepth = 24 then le24 (word_of_int v)
      else le32 (word_of_int v))"

definition encode_samples :: "int \<Rightarrow> int list \<Rightarrow> byte list" where
  "encode_samples bitDepth vs = concat (map (encode_sample bitDepth) vs)"

text \<open>What a sample becomes when it is written at a bit depth and read back.\<close>

definition cut_sample :: "int \<Rightarrow> int \<Rightarrow> int" where
  "cut_sample bitDepth v =
     (if bitDepth = 8 then uint (word_of_int v :: 8 word)
      else if bitDepth = 16 then sint (word_of_int v :: 16 word)
      else if bitDepth = 24 then sint (word_of_int v :: 24 word)
      else sint (word_of_int v :: 32 word))"

definition supported_depth :: "int \<Rightarrow> bool" where
  "supported_depth bitDepth = (bitDepth = 8 \<or> bitDepth = 16 \<or> bitDepth = 24 \<or> bitDepth = 32)"

text \<open>
  Modelled from the spec: the decoder of \<^verbatim>\<open>go-audio/wav\<close>. A buffer is a valid file when its
  header parses; the PCM buffer holds the format of the header and every whole sample of the
  payload, and decoding fails for a bit depth other than 8, 16, 24 and 32.
\<close>

definition wav_IsValidFile :: "byte list \<Rightarrow> bool" where
  "wav_IsValidFile b = (parse_wav b \<noteq> None)"

definition wav_FullPCMBuffer :: "byte list \<Rightarrow> string + IntBuffer" where
  "wav_FullPCMBuffer b =
     (case parse_wav b of
        None \<Rightarrow> Inl ''PCM chunk not found''
      | Some (fmt, payload) \<Rightarrow>
          if supported_depth (fmt_BitsPerSample fmt)
          then Inr \<lparr>Format = \<lparr>NumChannels = fmt_NumChannels fmt,
                                SampleRate = fmt_SampleRate fmt\<rparr>,
                      Data = decode_samples (fmt_BitsPerSample fmt) payload,
                      SourceBitDepth = fmt_BitsPerSample fmt\<rparr>
          else Inl ''unhandled bit depth'')"

definition wav_BitDepth :: "byte list \<Rightarrow> 16 word" where
  "wav_BitDepth b =
     (case parse_wav b of
        None \<Rightarrow> 0
      | Some (fmt, payload) \<Rightarrow> word_of_int (fmt_BitsPerSample fmt))"

text \<open>
  Modelled from the spec: the temporary file of package \<^verbatim>\<open>os\<close>, which the specification
  calls the intermediate encoding target. A file system is the content of each file of the
  temporary directory, the offset of each open file, and the names \<^verbatim>\<open>os.CreateTemp\<close> will
  draw for the \<^verbatim>\<open>*\<close> of its pattern \<^verbatim>\<open>output-*.wav\<close>. \<^verbatim>\<open>CreateTemp\<close> takes the first name
  that is free and fails when it finds none.
\<close>

record file_system =
  files :: "string \<rightharpoonup> byte list"
  offsets :: "string \<rightharpoonup> nat"
  temp_names :: "string list"

fun fresh_name ::
  "(string \<rightharpoonup> byte list) \<Rightarrow> string list \<Rightarrow> (string \<times> string list) option" where
  "fresh_name fs [] = None"
| "fresh_name fs (s # ss) =
     (if fs (''output-'' @ s @ ''.wav'') = None then Some (''output-'' @ s @ ''.wav'', ss)
      else fresh_name fs ss)"

definition os_CreateTemp :: "file_system \<Rightarrow> (string + string) \<times> file_system" where
  "os_CreateTemp w =
     (case fresh_name (files w) (temp_names w) of
        None \<Rightarrow> (Inl ''cannot create temporary file'', w\<lparr>temp_names := []\<rparr>)
      | Some (name, ss) \<Rightarrow>
          (Inr name, \<lparr>files = (files w)(name \<mapsto> []), offsets = (offsets w)(name \<mapsto> 0),
                      temp_names = ss\<rparr>))"

text \<open>Writing at an offset overwrites, and extends the file where it ends sooner.\<close>

definition write_at :: "byte list \<Rightarrow> nat \<Rightarrow> byte list \<Rightarrow> byte list" where
  "write_at content off bs =
     take off content @ replicate (off - length content) 0 @ bs @
     drop (off + length bs) content"

definition file_Write ::
  "string \<Rightarrow> byte list \<Rightarrow> file_system \<Rightarrow> string option \<times> file_system" where
  "file_Write name bs w =
     (case (files w name, offsets w name) of
        (Some content, Some off) \<Rightarrow>
          (None, w\<lparr>files := (files w)(name \<mapsto> write_at content off bs),
                    offsets := (offsets w)(name \<mapsto> off + length bs)\<rparr>)
      | _ \<Rightarrow> (Some ''file already closed'', w))"

text \<open>\<^verbatim>\<open>Seek(offset, whence)\<close>, with \<^verbatim>\<open>whence\<close> 0 for the start of the file and 2 for its end.\<close>

definition file_Seek :: "string \<Rightarrow> int \<Rightarrow> int \<Rightarrow> file_system \<Rightarrow> file_system" where
  "file_Seek name offset whence w =
     (case (files w name, offsets w name) of
        (Some content, Some off) \<Rightarrow>
          w\<lparr>offsets := (offsets w)(name \<mapsto>
               nat (if whence = 0 then offset
                    else if whence = 2 then int (length content) + offset
                    else int off + offset))\<rparr>
      | _ \<Rightarrow> w)"

definition io_ReadAll :: "string \<Rightarrow> file_system \<Rightarrow> (string + byte list) \<times> file_system" where
  "io_ReadAll name w =
     (case (files w name, offsets w name) of
        (Some content, Some off) \<Rightarrow>
          (Inr (drop off content),
           w\<lparr>offsets := (offsets w)(name \<mapsto> max off (length content))\<rparr>)
      | _ \<Rightarrow> (Inl ''file already closed'', w))"

definition file_Close :: "string \<Rightarrow> file_system \<Rightarrow> file_system" where
  "file_Close name w = w\<lparr>offsets := (offsets w)(name := None)\<rparr>"

text \<open>
  Modelled from the spec: the encoder of \<^verbatim>\<open>go-audio/wav\<close>. Its state is the file it writes
  to, the four arguments of \<^verbatim>\<open>NewEncoder\<close>, the number of bytes written and whether the
  header is written. The first \<^verbatim>\<open>Write\<close> stores the header
  with 42 in both size fields; \<^verbatim>\<open>Close\<close> goes back and stores the sizes.
\<close>

record Encoder =
  enc_w :: string
  enc_SampleRate :: int
  enc_BitDepth :: int
  enc_NumChans :: int
  enc_WavAudioFormat :: int
  enc_WrittenBytes :: nat
  enc_wroteHeader :: bool

definition wav_NewEncoder :: "string \<Rightarrow> int \<Rightarrow> int \<Rightarrow> int \<Rightarrow> int \<Rightarrow> Encoder" where
  "wav_NewEncoder w sampleRate bitDepth numChans audioFormat =
     \<lparr>enc_w = w, enc_SampleRate = sampleRate, enc_BitDepth = bitDepth, enc_NumChans = numChans,
      enc_WavAudioFormat = audioFormat, enc_WrittenBytes = 0, enc_wroteHeader = False\<rparr>"

definition encoder_header :: "Encoder \<Rightarrow> byte list" where
  "encoder_header e =
     (let blockAlign = (enc_NumChans e * enc_BitDepth e) sdiv 8
      in bytes_of ''RIFF'' @ le32 42 @ bytes_of ''WAVE'' @ bytes_of ''fmt '' @ le32 16 @
         le16 (word_of_int (enc_WavAudioFormat e)) @ le16 (word_of_int (enc_NumChans e)) @
         le32 (word_of_int (enc_SampleRate e)) @
         le32 (word_of_int (enc_SampleRate e * blockAlign)) @
         le16 (word_of_int blockAlign) @ le16 (word_of_int (enc_BitDepth e)) @
         bytes_of ''data'' @ le32 42)"

definition wav_Write ::
  "Encoder \<Rightarrow> IntBuffer \<Rightarrow> file_system \<Rightarrow> (string + Encoder) \<times> file_system" where
  "wav_Write e buf w =
     (let header = (if enc_wroteHeader e then [] else encoder_header e)
      in if \<not> supported_depth (enc_BitDepth e)
         then (case file_Write (enc_w e) header w of
                 (Some err, w1) \<Rightarrow> (Inl err, w1)
               | (None, w1) \<Rightarrow> (Inl ''cannot add frames of this bit size'', w1))
         else (case file_Write (enc_w e)
                      (header @ encode_samples (enc_BitDepth e) (Data buf)) w of
                 (Some err, w1) \<Rightarrow> (Inl err, w1)
               | (None, w1) \<Rightarrow>
                   (Inr (e\<lparr>enc_wroteHeader := True,
                            enc_WrittenBytes := enc_WrittenBytes e + length header +
                              length (encode_samples (enc_BitDepth e) (Data buf))\<rparr>), w1)))"

definition wav_Close :: "Encoder \<Rightarrow> file_system \<Rightarrow> string option \<times> file_system" where
  "wav_Close e w =
     (case file_Write (enc_w e) (le32 (word_of_nat (enc_WrittenBytes e - 8)))
             (file_Seek (enc_w e) 4 0 w) of
        (Some err, w1) \<Rightarrow> (Some err, w1)
      | (None, w1) \<Rightarrow>
          (case file_Write (enc_w e) (le32 (word_of_nat (enc_WrittenBytes e - 44)))
                  (file_Seek (enc_w e) 40 0 w1) of
             (Some err, w2) \<Rightarrow> (Some err, w2)
           | (None, w2) \<Rightarrow> (None, file_Seek (enc_w e) 0 2 w2)))"

text \<open>
  Modelled from the spec: the library that \<^verbatim>\<open>ConcatWavBytes\<close> calls, put together from the
  decoder, the encoder and the temporary file above.
\<close>

definition go_wav :: "(string, Encoder, file_system) wav_sys" where
  "go_wav =
     \<lparr>IsValidFile = wav_IsValidFile, FullPCMBuffer = wav_FullPCMBuffer, BitDepth = wav_BitDepth,
      CreateTemp = os_CreateTemp, NewEncoder = wav_NewEncoder, Write = wav_Write,
      Close = wav_Close, Seek = file_Seek, ReadAll = io_ReadAll, File_Close = file_Close\<rparr>"

text \<open>
  The file an encoder leaves when it is closed after writing the payload \<open>data\<close>: the
  header of the first \<^verbatim>\<open>Write\<close> with the two sizes stored by \<^verbatim>\<open>Close\<close>, then the payload.
\<close>

definition encoded_file :: "int \<Rightarrow> int \<Rightarrow> int \<Rightarrow> int \<Rightarrow> byte list \<Rightarrow> byte list" where
  "encoded_file sampleRate bitDepth numChans audioFormat data =
     bytes_of ''RIFF'' @ le32 (word_of_nat (length data + 36)) @
     (bytes_of ''WAVE'' @ bytes_of ''fmt '' @ le32 16 @
      le16 (word_of_int audioFormat) @ le16 (word_of_int numChans) @
      le32 (word_of_int sampleRate) @
      le32 (word_of_int (sampleRate * ((numChans * bitDepth) sdiv 8))) @
      le16 (word_of_int ((numChans * bitDepth) sdiv 8)) @ le16 (word_of_int bitDepth) @
      bytes_of ''data'') @ le32 (word_of_nat (length data)) @ data"

text \<open>
  What \<open>ConcatWavBytes\<close> writes with \<open>go_wav\<close> for inputs that decode: the reference
  format of the first input, the bit depth of the last, and the samples of all inputs.
\<close>

definition concat_output :: "byte list list \<Rightarrow> byte list" where
  "concat_output ws =
     encoded_file (SampleRate (format_of go_wav (hd ws))) (uint (BitDepth go_wav (last ws)))
       (NumChannels (format_of go_wav (hd ws))) 1
       (encode_samples (uint (BitDepth go_wav (last ws))) (concat (map (samples_of go_wav) ws)))"

section \<open>Example inputs\<close>

text \<open>
  Three WAV files of one sample each (16 kHz mono 16 bit with the sample 1000, 16 kHz mono
  8 bit with the sample 5, 8 kHz mono 16 bit with the sample 1), four bytes that are no WAV
  file, and a temporary directory that is empty, where \<^verbatim>\<open>CreateTemp\<close> draws the name
  \<^verbatim>\<open>output-1.wav\<close>.
\<close>

definition wav_16k_16bit :: "byte list" where
  "wav_16k_16bit =
     [0x52, 0x49, 0x46, 0x46, 0x26, 0x00, 0x00, 0x00, 0x57, 0x41, 0x56, 0x45,
      0x66, 0x6D, 0x74, 0x20, 0x10, 0x00, 0x00, 0x00, 0x01, 0x00, 0x01, 0x00,
      0x80, 0x3E, 0x00, 0x00, 0x00, 0x7D, 0x00, 0x00, 0x02, 0x00, 0x10, 0x00,
      0x64, 0x61, 0x74, 0x61, 0x02, 0x00, 0x00, 0x00, 0xE8, 0x03]"

definition wav_16k_8bit :: "byte list" where
  "wav_16k_8bit =
     [0x52, 0x49, 0x46, 0x46, 0x25, 0x00, 0x00, 0x00, 0x57, 0x41, 0x56, 0x45,
      0x66, 0x6D, 0x74, 0x20, 0x10, 0x00, 0x00, 0x00, 0x01, 0x00, 0x01, 0x00,
      0x80, 0x3E, 0x00, 0x00, 0x80, 0x3E, 0x00, 0x00, 0x01, 0x00, 0x08, 0x00,
      0x64, 0x61, 0x74, 0x61, 0x01, 0x00, 0x00, 0x00, 0x05]"

definition wav_8k_16bit :: "byte list" where
  "wav_8k_16bit =
     [0x52, 0x49, 0x46, 0x46, 0x26, 0x00, 0x00, 0x00, 0x57, 0x41, 0x56, 0x45,
      0x66, 0x6D, 0x74, 0x20, 0x10, 0x00, 0x00, 0x00, 0x01, 0x00, 0x01, 0x00,
      0x40, 0x1F, 0x00, 0x00, 0x80, 0x3E, 0x00, 0x00, 0x02, 0x00, 0x10, 0x00,
      0x64, 0x61, 0x74, 0x61, 0x02, 0x00, 0x00, 0x00, 0x01, 0x00]"

definition not_a_wav :: "byte list" where
  "not_a_wav = [0x00, 0x01, 0x02, 0x03]"

definition empty_tmp :: file_system where
  "empty_tmp = \<lparr>files = Map.empty, offsets = Map.empty, temp_names = [''1'']\<rparr>"

section \<open>Properties of Pcm2Wav\<close>

lemma length_le16 [simp]: "length (le16 v) = 2"
  by (simp add: le16_def)

lemma length_le32 [simp]: "length (le32 v) = 4"
  by (simp add: le32_def)

lemma length_bytes_of [simp]: "length (bytes_of s) = length s"
  by (simp add: bytes_of_def)

lemma length_wav_header [simp]: "length (wav_header n sr nc bd) = 44"
  by (simp add: wav_header_def)

lemma copy_Nil: "copy dst 0 hi [] = dst"
  by (simp add: copy_def)

lemma copy_0_Cons: "copy (d # dst) 0 (Suc hi) (x # src) = x # copy dst 0 hi src"
  by (simp add: copy_def)

lemma copy_Suc_Cons: "copy (d # dst) (Suc lo) (Suc hi) src = d # copy dst lo hi src"
  by (simp add: copy_def)

lemma copy_all: "length dst = length src \<Longrightarrow> copy dst 0 (length src) src = src"
  by (simp add: copy_def)

lemma zeros44: "replicate (n + 44) (0::byte) = replicate 44 0 @ replicate n 0"
  by (simp add: replicate_add [symmetric] add.commute)

lemma replicate44:
  "replicate 44 (0::byte) =
     [0,0,0,0, 0,0,0,0, 0,0,0,0, 0,0,0,0, 0,0,0,0, 0,0,0,0, 0,0,0,0, 0,0,0,0, 0,0,0,0,
      0,0,0,0, 0,0,0,0]"
  by (simp add: eval_nat_numeral)

text \<open>The stores of \<^verbatim>\<open>Pcm2Wav\<close> do not overlap: the result is the header, then the payload.\<close>

lemma Pcm2Wav_layout:
  "Pcm2Wav pcm sr nc bd = Inr (wav_header (length pcm) sr nc bd @ pcm)"
  unfolding Pcm2Wav_def Let_def zeros44 replicate44
  by (simp add: wav_header_def PutUint16_def PutUint32_def bytes_of_def
      le16_def le32_def eval_nat_numeral copy_Nil copy_0_Cons copy_Suc_Cons copy_all
      del: of_char_Char)

lemma Uint16_le16 [simp]: "Uint16 (le16 v @ rest) = v"
  by (rule bit_word_eqI) (auto simp: le16_def bit_simps)

lemma Uint32_le32 [simp]: "Uint32 (le32 v @ rest) = v"
  apply (rule bit_word_eqI)
  apply (auto simp: le32_def bit_simps)
  apply (rule ccontr)
  apply (simp add: not_less)
  done

lemma take_bit_sint_go:
  "n \<le> 64 \<Longrightarrow> take_bit n (sint (x :: go_int)) = take_bit n (uint x)"
  by (simp add: sint_uint take_bit_signed_take_bit)

lemma uint_ucast_go16: "uint (ucast (x :: go_int) :: 16 word) = sint x mod 2 ^ 16"
proof -
  have "uint (ucast x :: 16 word) = take_bit 16 (uint x)"
    by (simp add: unsigned_ucast_eq)
  also have "\<dots> = take_bit 16 (sint x)"
    by (simp add: take_bit_sint_go)
  finally show ?thesis
    by (simp only: take_bit_eq_mod)
qed

lemma uint_ucast_go32: "uint (ucast (x :: go_int) :: 32 word) = sint x mod 2 ^ 32"
proof -
  have "uint (ucast x :: 32 word) = take_bit 32 (uint x)"
    by (simp add: unsigned_ucast_eq)
  also have "\<dots> = take_bit 32 (sint x)"
    by (simp add: take_bit_sint_go)
  finally show ?thesis
    by (simp only: take_bit_eq_mod)
qed

lemma uint_of_nat32: "uint (word_of_nat n :: 32 word) = int n mod 2 ^ 32"
proof -
  have "uint (word_of_nat n :: 32 word) = int (take_bit 32 n)"
    by (simp add: unsigned_of_nat)
  also have "\<dots> = int (n mod 2 ^ 32)"
    by (simp only: take_bit_eq_mod)
  finally show ?thesis
    by (simp only: of_nat_mod of_nat_power of_nat_numeral)
qed

text \<open>
  C2: for every byte buffer \<open>pcm\<close> and every three integer parameters, \<^verbatim>\<open>Pcm2Wav\<close>
  returns no error; the buffer it returns has exactly \<open>44 + length pcm\<close> bytes, and its
  bytes from offset 44 on are \<open>pcm\<close>.
\<close>

theorem Pcm2Wav_length_payload:
  "\<exists>wavData. Pcm2Wav pcm sampleRate numChannels bitDepth = Inr wavData \<and>
     length wavData = 44 + length pcm \<and> drop 44 wavData = pcm"
  by (simp add: Pcm2Wav_layout)

lemma neg_mod_pow:
  "- m \<le> x \<Longrightarrow> x < 0 \<Longrightarrow> x mod m = m + (x::int)"
  by (smt (verit) mod_add_self2 mod_pos_pos_trivial)

lemma header_fields:
  fixes pcm sr nc bd
  defines "w \<equiv> wav_header (length pcm) sr nc bd @ pcm"
  shows "slice_of w 0 4 = bytes_of ''RIFF''"
    and "Uint32 (slice_of w 4 8) = word_of_nat (length pcm + 36)"
    and "slice_of w 8 12 = bytes_of ''WAVE''"
    and "slice_of w 12 16 = bytes_of ''fmt ''"
    and "Uint32 (slice_of w 16 20) = 16"
    and "Uint16 (slice_of w 20 22) = 1"
    and "Uint16 (slice_of w 22 24) = ucast nc"
    and "Uint32 (slice_of w 24 28) = ucast sr"
    and "Uint32 (slice_of w 28 32) = ucast (go_div (sr * nc * bd) 8)"
    and "Uint16 (slice_of w 32 34) = ucast (go_div (nc * bd) 8)"
    and "Uint16 (slice_of w 34 36) = ucast bd"
    and "slice_of w 36 40 = bytes_of ''data''"
    and "Uint32 (slice_of w 40 44) = word_of_nat (length pcm)"
    and "drop 44 w = pcm"
  unfolding w_def wav_header_def slice_of_def
  by (simp_all add: Uint16_le16 [of _ "[]", simplified] Uint32_le32 [of _ "[]", simplified])

lemma Uint16_le16_only [simp]: "Uint16 (le16 v) = v"
  using Uint16_le16 [of v "[]"] by simp

lemma Uint32_le32_only [simp]: "Uint32 (le32 v) = v"
  using Uint32_le32 [of v "[]"] by simp

text \<open>
  C9: \<^verbatim>\<open>Pcm2Wav([0x01,0x02,0x03,0x04], 16000, 1, 16)\<close> returns exactly 48 bytes; read as
  little-endian fields they hold ChunkSize 40 at offset 4, "WAVE" at offset 8, NumChannels 1
  at offset 22, SampleRate 16000 at offset 24, ByteRate 32000 at offset 28, BlockAlign 2 at
  offset 32, BitsPerSample 16 at offset 34, Subchunk2Size 4 at offset 40, and the payload
  01 02 03 04 at offset 44.
\<close>

theorem Pcm2Wav_example:
  "\<exists>wavData. Pcm2Wav [0x01, 0x02, 0x03, 0x04] 16000 1 16 = Inr wavData \<and>
     wavData =
       [0x52, 0x49, 0x46, 0x46, 0x28, 0x00, 0x00, 0x00, 0x57, 0x41, 0x56, 0x45,
        0x66, 0x6D, 0x74, 0x20, 0x10, 0x00, 0x00, 0x00, 0x01, 0x00, 0x01, 0x00,
        0x80, 0x3E, 0x00, 0x00, 0x00, 0x7D, 0x00, 0x00, 0x02, 0x00, 0x10, 0x00,
        0x64, 0x61, 0x74, 0x61, 0x04, 0x00, 0x00, 0x00, 0x01, 0x02, 0x03, 0x04] \<and>
     length wavData = 48 \<and>
     Uint32 (slice_of wavData 4 8) = 40 \<and>
     slice_of wavData 8 12 = bytes_of ''WAVE'' \<and>
     Uint16 (slice_of wavData 22 24) = 1 \<and>
     Uint32 (slice_of wavData 24 28) = 16000 \<and>
     Uint32 (slice_of wavData 28 32) = 32000 \<and>
     Uint16 (slice_of wavData 32 34) = 2 \<and>
     Uint16 (slice_of wavData 34 36) = 16 \<and>
     Uint32 (slice_of wavData 40 44) = 4 \<and>
     drop 44 wavData = [0x01, 0x02, 0x03, 0x04]"
  by (simp add: Pcm2Wav_layout wav_header_def bytes_of_def le16_def le32_def go_div_def
      signed_divide_int_def slice_of_def)

lemma sdiv8_cases:
  "(k::int) sdiv 8 = (if 0 \<le> k then k div 8 else - ((- k) div 8))"
  by (auto simp: signed_divide_int_def sgn_if)

lemma sdiv8_bounds:
  fixes k :: int
  assumes "- (2 ^ 63) \<le> k" and "k < 2 ^ 63"
  shows "- (2 ^ 63) \<le> k sdiv 8" and "k sdiv 8 < 2 ^ 63"
  using assms unfolding sdiv8_cases by auto

lemma sint_go_div8: "sint (go_div x 8) = sint x sdiv 8"
proof -
  have "- (2 ^ 63) \<le> sint x" "sint x < 2 ^ 63"
    using sint_ge [of x] sint_lt [of x] by simp_all
  from sdiv8_bounds [OF this] show ?thesis
    by (simp add: go_div_def signed_take_bit_int_eq_self sint_sbintrunc')
qed

text \<open>
  C10: for all integer parameters the header fields are stored through truncating unsigned
  conversions. NumChannels, BlockAlign and BitsPerSample hold the Go \<^verbatim>\<open>int\<close> value of their
  expression modulo \<open>2 ^ 16\<close>; ChunkSize, SampleRate, ByteRate and Subchunk2Size hold it
  modulo \<open>2 ^ 32\<close>. In the products \<open>*\<close> is the multiplication of \<^verbatim>\<open>int\<close>, which wraps
  around at 64 bits, and \<open>sdiv\<close> is the division that truncates towards zero. A negative
  sample rate, channel count or bit depth is not rejected: it is stored as the large
  unsigned value \<open>2 ^ 32 + sampleRate\<close> (respectively \<open>2 ^ 16 + numChannels\<close>,
  \<open>2 ^ 16 + bitDepth\<close>).
\<close>

theorem Pcm2Wav_fields_truncate:
  "\<exists>wavData. Pcm2Wav pcm sampleRate numChannels bitDepth = Inr wavData \<and>
     uint (Uint16 (slice_of wavData 22 24)) = sint numChannels mod 2 ^ 16 \<and>
     uint (Uint16 (slice_of wavData 32 34)) = (sint (numChannels * bitDepth) sdiv 8) mod 2 ^ 16 \<and>
     uint (Uint16 (slice_of wavData 34 36)) = sint bitDepth mod 2 ^ 16 \<and>
     uint (Uint32 (slice_of wavData 4 8)) = (int (length pcm) + 44 - 8) mod 2 ^ 32 \<and>
     uint (Uint32 (slice_of wavData 24 28)) = sint sampleRate mod 2 ^ 32 \<and>
     uint (Uint32 (slice_of wavData 28 32)) =
       (sint (sampleRate * numChannels * bitDepth) sdiv 8) mod 2 ^ 32 \<and>
     uint (Uint32 (slice_of wavData 40 44)) = int (length pcm) mod 2 ^ 32 \<and>
     (- (2 ^ 32) \<le> sint sampleRate \<and> sint sampleRate < 0 \<longrightarrow>
        uint (Uint32 (slice_of wavData 24 28)) = 2 ^ 32 + sint sampleRate) \<and>
     (- (2 ^ 16) \<le> sint numChannels \<and> sint numChannels < 0 \<longrightarrow>
        uint (Uint16 (slice_of wavData 22 24)) = 2 ^ 16 + sint numChannels) \<and>
     (- (2 ^ 16) \<le> sint bitDepth \<and> sint bitDepth < 0 \<longrightarrow>
        uint (Uint16 (slice_of wavData 34 36)) = 2 ^ 16 + sint bitDepth)"
proof -
  let ?w = "wav_header (length pcm) sampleRate numChannels bitDepth @ pcm"
  have "Pcm2Wav pcm sampleRate numChannels bitDepth = Inr ?w"
    by (rule Pcm2Wav_layout)
  moreover have "uint (Uint16 (slice_of ?w 22 24)) = sint numChannels mod 2 ^ 16"
    by (simp only: header_fields uint_ucast_go16)
  moreover have "uint (Uint16 (slice_of ?w 32 34)) = (sint (numChannels * bitDepth) sdiv 8) mod 2 ^ 16"
    by (simp only: header_fields uint_ucast_go16 sint_go_div8)
  moreover have "uint (Uint16 (slice_of ?w 34 36)) = sint bitDepth mod 2 ^ 16"
    by (simp only: header_fields uint_ucast_go16)
  moreover have "uint (Uint32 (slice_of ?w 4 8)) = (int (length pcm) + 44 - 8) mod 2 ^ 32"
    by (simp only: header_fields uint_of_nat32) (simp add: add.commute)
  moreover have "uint (Uint32 (slice_of ?w 24 28)) = sint sampleRate mod 2 ^ 32"
    by (simp only: header_fields uint_ucast_go32)
  moreover have "uint (Uint32 (slice_of ?w 28 32)) =
       (sint (sampleRate * numChannels * bitDepth) sdiv 8) mod 2 ^ 32"
    by (simp only: header_fields uint_ucast_go32 sint_go_div8)
  moreover have "uint (Uint32 (slice_of ?w 40 44)) = int (length pcm) mod 2 ^ 32"
    by (simp only: header_fields uint_of_nat32)
  moreover have "- (2 ^ 32) \<le> sint sampleRate \<and> sint sampleRate < 0 \<longrightarrow>
        uint (Uint32 (slice_of ?w 24 28)) = 2 ^ 32 + sint sampleRate"
    by (simp only: header_fields uint_ucast_go32) (simp add: neg_mod_pow)
  moreover have "- (2 ^ 16) \<le> sint numChannels \<and> sint numChannels < 0 \<longrightarrow>
        uint (Uint16 (slice_of ?w 22 24)) = 2 ^ 16 + sint numChannels"
    by (simp only: header_fields uint_ucast_go16) (simp add: neg_mod_pow)
  moreover have "- (2 ^ 16) \<le> sint bitDepth \<and> sint bitDepth < 0 \<longrightarrow>
        uint (Uint16 (slice_of ?w 34 36)) = 2 ^ 16 + sint bitDepth"
    by (simp only: header_fields uint_ucast_go16) (simp add: neg_mod_pow)
  ultimately show ?thesis
    by blast
qed

text \<open>The theorem at the parameters \<open>-1\<close>, \<open>-1\<close>, \<open>-1\<close> and an empty payload.\<close>

theorem Pcm2Wav_fields_truncate_witness:
  "- (2 ^ 32) \<le> sint (- 1 :: go_int) \<and> sint (- 1 :: go_int) < 0 \<and>
   (\<exists>wavData. Pcm2Wav [] (- 1) (- 1) (- 1) = Inr wavData \<and>
      uint (Uint32 (slice_of wavData 24 28)) = 4294967295 \<and>
      uint (Uint16 (slice_of wavData 22 24)) = 65535 \<and>
      uint (Uint16 (slice_of wavData 34 36)) = 65535)"
  using Pcm2Wav_fields_truncate [of "[]" "- 1" "- 1" "- 1"] by simp blast

lemma parse_wav_header:
  "parse_wav (wav_header (length pcm) sr nc bd @ pcm) =
     Some (\<lparr>fmt_SampleRate = sint sr mod 2 ^ 32, fmt_NumChannels = sint nc mod 2 ^ 16,
             fmt_BitsPerSample = sint bd mod 2 ^ 16\<rparr>,
           take (length pcm mod 2 ^ 32) pcm)"
proof -
  have "unat (word_of_nat (length pcm) :: 32 word) = length pcm mod 2 ^ 32"
    by (simp only: unat_of_nat) simp
  then show ?thesis
    unfolding parse_wav_def
    by (simp only: header_fields uint_ucast_go16 uint_ucast_go32) simp
qed

text \<open>
  C8, amended: for every payload shorter than \<open>2 ^ 32\<close> bytes and format parameters that
  fit their header fields (\<open>0 \<le> sampleRate < 2 ^ 32\<close>, \<open>0 \<le> numChannels < 2 ^ 16\<close>,
  \<open>0 \<le> bitDepth < 2 ^ 16\<close>), parsing the buffer that \<^verbatim>\<open>Pcm2Wav\<close> returns recovers the
  sample rate, the channel count, the bit depth and the payload.
\<close>

theorem Pcm2Wav_parse_roundtrip:
  assumes "0 \<le> sint sampleRate" and "sint sampleRate < 2 ^ 32"
    and "0 \<le> sint numChannels" and "sint numChannels < 2 ^ 16"
    and "0 \<le> sint bitDepth" and "sint bitDepth < 2 ^ 16"
    and "length pcm < 2 ^ 32"
  shows "synth_then_parse pcm sampleRate numChannels bitDepth =
     Some (\<lparr>fmt_SampleRate = sint sampleRate, fmt_NumChannels = sint numChannels,
             fmt_BitsPerSample = sint bitDepth\<rparr>, pcm)"
  using assms by (simp add: synth_then_parse_def Pcm2Wav_layout parse_wav_header)

text \<open>The round trip at the example of the specification.\<close>

theorem Pcm2Wav_parse_roundtrip_witness:
  "0 \<le> sint (16000 :: go_int) \<and> sint (16000 :: go_int) < 2 ^ 32 \<and>
   0 \<le> sint (1 :: go_int) \<and> sint (1 :: go_int) < 2 ^ 16 \<and>
   0 \<le> sint (16 :: go_int) \<and> sint (16 :: go_int) < 2 ^ 16 \<and>
   length [0x01, 0x02, 0x03, 0x04 :: byte] < 2 ^ 32 \<and>
   synth_then_parse [0x01, 0x02, 0x03, 0x04] 16000 1 16 =
     Some (\<lparr>fmt_SampleRate = 16000, fmt_NumChannels = 1, fmt_BitsPerSample = 16\<rparr>,
           [0x01, 0x02, 0x03, 0x04])"
  using Pcm2Wav_parse_roundtrip [of 16000 1 16 "[0x01, 0x02, 0x03, 0x04]"] by simp

text \<open>
  C8 as stated, for every payload, fails: for a payload of \<open>2 ^ 32\<close> bytes
  \<^verbatim>\<open>uint32(len(pcmBytes))\<close> is 0, the Subchunk2Size field says that the data chunk is empty,
  and the parser recovers an empty payload.
\<close>

theorem Pcm2Wav_parse_roundtrip_counterexample:
  "synth_then_parse (replicate 4294967296 0) 16000 1 16 =
     Some (\<lparr>fmt_SampleRate = 16000, fmt_NumChannels = 1, fmt_BitsPerSample = 16\<rparr>, []) \<and>
   synth_then_parse (replicate 4294967296 0) 16000 1 16 \<noteq>
     Some (\<lparr>fmt_SampleRate = 16000, fmt_NumChannels = 1, fmt_BitsPerSample = 16\<rparr>,
           replicate 4294967296 0)"
proof -
  have "synth_then_parse (replicate 4294967296 0) 16000 1 16 =
     Some (\<lparr>fmt_SampleRate = 16000, fmt_NumChannels = 1, fmt_BitsPerSample = 16\<rparr>, [])"
    using parse_wav_header [of "replicate 4294967296 0" 16000 1 16]
    by (simp add: synth_then_parse_def Pcm2Wav_layout)
  moreover have "replicate 4294967296 (0::byte) \<noteq> []"
    by simp
  ultimately show ?thesis
    by simp
qed

section \<open>The decoding loop\<close>

text \<open>
  Facts about the loop of lines 23 to 49 that hold for every library: what one iteration
  does with a buffer that decodes, the state the loop ends in when every buffer is accepted,
  and the two ways it stops early.
\<close>

lemma accepted_Inr:
  "accepted L b \<Longrightarrow> FullPCMBuffer L b = Inr (projr (FullPCMBuffer L b))"
  by (cases "FullPCMBuffer L b") (simp_all add: accepted_def)

lemma decode_loop_step:
  assumes "accepted L b"
  shows "decode_loop L (b # rest) (fs, Some p, bd) =
     (if SampleRate p \<noteq> SampleRate (format_of L b) \<or> NumChannels p \<noteq> NumChannels (format_of L b)
      then Inl FormatMismatch
      else decode_loop L rest (fs @ [projr (FullPCMBuffer L b)], Some p, uint (BitDepth L b)))"
  using assms accepted_Inr [OF assms]
  by (cases "FullPCMBuffer L b") (auto simp: accepted_def format_of_def)

lemma decode_loop_first:
  assumes "accepted L b"
  shows "decode_loop L (b # rest) (fs, None, bd) =
     decode_loop L rest (fs @ [projr (FullPCMBuffer L b)], Some (format_of L b), uint (BitDepth L b))"
  using assms accepted_Inr [OF assms]
  by (cases "FullPCMBuffer L b") (auto simp: accepted_def format_of_def)

lemma decode_loop_all:
  assumes "\<forall>b\<in>set ws. accepted L b \<and> SampleRate p = SampleRate (format_of L b) \<and>
             NumChannels p = NumChannels (format_of L b)"
  shows "decode_loop L ws (fs, Some p, bd) =
     Inr (fs @ map (\<lambda>b. projr (FullPCMBuffer L b)) ws, Some p,
          if ws = [] then bd else uint (BitDepth L (last ws)))"
  using assms
proof (induction ws arbitrary: fs bd)
  case Nil
  then show ?case by simp
next
  case (Cons b ws)
  then have "accepted L b" by simp
  from decode_loop_step [OF this] Cons show ?case
    by simp
qed

lemma decode_loop_append:
  "decode_loop L (pre @ rest) st =
     (case decode_loop L pre st of Inl e \<Rightarrow> Inl e | Inr st' \<Rightarrow> decode_loop L rest st')"
proof (induction L pre st rule: decode_loop.induct)
  case (1 L st)
  then show ?case by simp
next
  case (2 L wavData rest' combinedFrames params bitDepth)
  then show ?case
    by (auto split: sum.splits option.splits)
qed

lemma decode_loop_prefix:
  assumes "pre \<noteq> []"
    and "\<forall>b\<in>set pre. accepted L b \<and> same_params L (hd pre) b"
  shows "decode_loop L pre ([], None, 0) =
     Inr (map (\<lambda>b. projr (FullPCMBuffer L b)) pre, Some (format_of L (hd pre)),
          uint (BitDepth L (last pre)))"
proof (cases pre)
  case Nil
  with assms show ?thesis by simp
next
  case (Cons a as)
  with assms have a: "accepted L a" by simp
  have "\<forall>b\<in>set as. accepted L b \<and> SampleRate (format_of L a) = SampleRate (format_of L b) \<and>
             NumChannels (format_of L a) = NumChannels (format_of L b)"
    using assms Cons by (simp add: same_params_def)
  from decode_loop_all [OF this] decode_loop_first [OF a] Cons show ?thesis
    by simp
qed

text \<open>
  After the loop has accepted every buffer, the encoder is created with the sample rate and
  the channel count of the first buffer and the bit depth of the last one (line 61), and is
  fed the decoded buffers in input order. This holds for every library.
\<close>

lemma ConcatWavBytes_after_loop:
  assumes "ws \<noteq> []"
    and "\<forall>b\<in>set ws. accepted L b \<and> same_params L (hd ws) b"
  shows "ConcatWavBytes L ws w =
     (case CreateTemp L w of
        (Inl err, w1) \<Rightarrow> (Inl (LibError err), w1)
      | (Inr tempFile, w1) \<Rightarrow>
          (case encode_frames L tempFile (format_of L (hd ws)) (uint (BitDepth L (last ws)))
                  (map (\<lambda>b. projr (FullPCMBuffer L b)) ws) w1 of
             (result, w2) \<Rightarrow> (result, File_Close L tempFile w2)))"
  unfolding ConcatWavBytes_def
  by (simp add: decode_loop_prefix [OF assms])

lemma decode_loop_mismatch:
  assumes "i < length ws"
    and "\<forall>j\<le>i. accepted L (ws ! j)"
    and "SampleRate p \<noteq> SampleRate (format_of L (ws ! i)) \<or>
         NumChannels p \<noteq> NumChannels (format_of L (ws ! i))"
  shows "decode_loop L ws (fs, Some p, bd) = Inl FormatMismatch"
  using assms
proof (induction ws arbitrary: i fs bd)
  case Nil
  then show ?case by simp
next
  case (Cons b ws)
  from Cons.prems(2) have b: "accepted L b" by auto
  show ?case
  proof (cases "SampleRate p \<noteq> SampleRate (format_of L b) \<or>
                NumChannels p \<noteq> NumChannels (format_of L b)")
    case True
    with decode_loop_step [OF b] show ?thesis by simp
  next
    case False
    with Cons.prems(3) obtain k where k: "i = Suc k" by (cases i) auto
    have "decode_loop L ws (fs @ [projr (FullPCMBuffer L b)], Some p, uint (BitDepth L b)) =
        Inl FormatMismatch"
    proof (rule Cons.IH)
      show "k < length ws" using Cons.prems(1) k by simp
      show "\<forall>j\<le>k. accepted L (ws ! j)"
        using Cons.prems(2) k by (metis Suc_le_mono nth_Cons_Suc)
      show "SampleRate p \<noteq> SampleRate (format_of L (ws ! k)) \<or>
         NumChannels p \<noteq> NumChannels (format_of L (ws ! k))"
        using Cons.prems(3) k by simp
    qed
    with decode_loop_step [OF b] False show ?thesis by simp
  qed
qed

lemma loop_stops_at_invalid:
  assumes "\<forall>b\<in>set pre. accepted L b \<and> same_params L (hd pre) b"
    and "\<not> IsValidFile L bad"
  shows "ConcatWavBytes L (pre @ bad # post) w = (Inl InvalidFormat, w)"
proof (cases "pre = []")
  case True
  with assms show ?thesis
    by (simp add: ConcatWavBytes_def)
next
  case False
  from decode_loop_prefix [OF False assms(1)] assms(2) show ?thesis
    by (simp add: ConcatWavBytes_def decode_loop_append)
qed

lemma loop_stops_at_mismatch:
  assumes "0 < i" and "i < length wavBytes"
    and "\<forall>j\<le>i. accepted L (wavBytes ! j)"
    and "\<not> same_params L (wavBytes ! 0) (wavBytes ! i)"
  shows "ConcatWavBytes L wavBytes w = (Inl FormatMismatch, w)"
proof -
  from assms obtain a ws k where ws: "wavBytes = a # ws" and k: "i = Suc k"
    by (cases wavBytes; cases i) auto
  from assms(3) ws have a: "accepted L a" by auto
  have "decode_loop L ws ([] @ [projr (FullPCMBuffer L a)], Some (format_of L a), uint (BitDepth L a)) =
      Inl FormatMismatch"
  proof (rule decode_loop_mismatch)
    show "k < length ws" using assms(2) ws k by simp
    show "\<forall>j\<le>k. accepted L (ws ! j)"
      using assms(3) ws k by (metis Suc_le_mono nth_Cons_Suc)
    show "SampleRate (format_of L a) \<noteq> SampleRate (format_of L (ws ! k)) \<or>
         NumChannels (format_of L a) \<noteq> NumChannels (format_of L (ws ! k))"
      using assms(4) ws k by (simp add: same_params_def)
  qed
  with decode_loop_first [OF a] ws show ?thesis
    by (simp add: ConcatWavBytes_def)
qed

section \<open>The codec and the temporary file\<close>

text \<open>
  Facts about \<open>go_wav\<close>: little-endian bytes and words are inverse to each other, a
  sample written at a bit depth and read back is cut to that depth, samples that were
  decoded at a depth are not changed by it, and a run of the encoder on a fresh temporary
  file leaves the header with its two sizes followed by the payload.
\<close>

lemma Uint24_le24 [simp]: "Uint24 (le24 v @ rest) = v"
  apply (rule bit_word_eqI)
  apply (auto simp: le24_def bit_simps)
  apply (rule ccontr)
  apply (simp add: not_less)
  done

lemma le16_Uint16 [simp]: "le16 (Uint16 [b0, b1]) = [b0, b1]"
  unfolding le16_def Uint16.simps list.inject
  by (intro conjI refl; rule bit_word_eqI) (auto simp: bit_simps dest: bit_imp_le_length)

lemma le24_Uint24 [simp]: "le24 (Uint24 [b0, b1, b2]) = [b0, b1, b2]"
  unfolding le24_def Uint24.simps list.inject
  by (intro conjI refl; rule bit_word_eqI) (auto simp: bit_simps dest: bit_imp_le_length)

lemma le32_Uint32 [simp]: "le32 (Uint32 [b0, b1, b2, b3]) = [b0, b1, b2, b3]"
  unfolding le32_def Uint32.simps list.inject
  by (intro conjI refl; rule bit_word_eqI) (auto simp: bit_simps dest: bit_imp_le_length)

lemma samples16_le16: "samples16 (le16 w @ rest) = sint w # samples16 rest"
  using Uint16_le16 [of w "[]"] by (simp add: le16_def)

lemma samples24_le24: "samples24 (le24 w @ rest) = sint w # samples24 rest"
  using Uint24_le24 [of w "[]"] by (simp add: le24_def)

lemma samples32_le32: "samples32 (le32 w @ rest) = sint w # samples32 rest"
  using Uint32_le32 [of w "[]"] by (simp add: le32_def)

lemma decode_encode_samples:
  assumes "supported_depth bd"
  shows "decode_samples bd (encode_samples bd vs @ rest) =
           map (cut_sample bd) vs @ decode_samples bd rest"
  using assms
  by (induction vs)
     (auto simp: supported_depth_def decode_samples_def encode_samples_def encode_sample_def
        cut_sample_def samples8_def samples16_le16 samples24_le24 samples32_le32)

lemma cut_samples16: "v \<in> set (samples16 bs) \<Longrightarrow> sint (word_of_int v :: 16 word) = v"
  by (induction bs rule: samples16.induct) auto

lemma cut_samples24: "v \<in> set (samples24 bs) \<Longrightarrow> sint (word_of_int v :: 24 word) = v"
  by (induction bs rule: samples24.induct) auto

lemma cut_samples32: "v \<in> set (samples32 bs) \<Longrightarrow> sint (word_of_int v :: 32 word) = v"
  by (induction bs rule: samples32.induct) auto

lemma cut_decoded:
  assumes "supported_depth bd" and "v \<in> set (decode_samples bd bs)"
  shows "cut_sample bd v = v"
  using assms
  by (auto simp: supported_depth_def decode_samples_def cut_sample_def samples8_def
      cut_samples16 cut_samples24 cut_samples32)

lemma length_encode_samples:
  "supported_depth bd \<Longrightarrow> length (encode_samples bd vs) = nat (bd div 8) * length vs"
  by (induction vs)
     (auto simp: supported_depth_def encode_samples_def encode_sample_def le24_def)

lemma length_samples16: "length (samples16 bs) = length bs div 2"
  by (induction bs rule: samples16.induct) auto

lemma length_samples24: "length (samples24 bs) = length bs div 3"
  by (induction bs rule: samples24.induct) auto

lemma length_samples32: "length (samples32 bs) = length bs div 4"
  by (induction bs rule: samples32.induct) auto

lemma length_decode_samples:
  "supported_depth bd \<Longrightarrow> length (decode_samples bd bs) = length bs div nat (bd div 8)"
  by (auto simp: supported_depth_def decode_samples_def samples8_def length_samples16
      length_samples24 length_samples32)

lemma encode_samples_Nil [simp]: "encode_samples bd [] = []"
  by (simp add: encode_samples_def)

lemma encode_samples_append [simp]:
  "encode_samples bd (xs @ ys) = encode_samples bd xs @ encode_samples bd ys"
  by (simp add: encode_samples_def)

lemma file_Write_append:
  assumes "files w name = Some content" and "offsets w name = Some (length content)"
  shows "file_Write name bs w =
     (None, w\<lparr>files := (files w)(name \<mapsto> content @ bs),
               offsets := (offsets w)(name \<mapsto> length content + length bs)\<rparr>)"
  using assms by (simp add: file_Write_def write_at_def)

lemma write_loop_go_wav:
  assumes "files w (enc_w e) = Some content" and "offsets w (enc_w e) = Some (length content)"
    and "supported_depth (enc_BitDepth e)" and "enc_wroteHeader e"
  shows "write_loop go_wav e frames w =
     (Inr (e\<lparr>enc_WrittenBytes := enc_WrittenBytes e +
              length (encode_samples (enc_BitDepth e) (concat (map Data frames)))\<rparr>),
      w\<lparr>files := (files w)(enc_w e \<mapsto>
              content @ encode_samples (enc_BitDepth e) (concat (map Data frames))),
        offsets := (offsets w)(enc_w e \<mapsto>
              length content + length (encode_samples (enc_BitDepth e) (concat (map Data frames))))\<rparr>)"
  using assms
proof (induction frames arbitrary: e w content)
  case Nil
  then show ?case
    by (simp add: map_upd_triv)
next
  case (Cons f frames)
  let ?d = "encode_samples (enc_BitDepth e) (Data f)"
  let ?e = "e\<lparr>enc_wroteHeader := True, enc_WrittenBytes := enc_WrittenBytes e + length ?d\<rparr>"
  let ?w = "w\<lparr>files := (files w)(enc_w e \<mapsto> content @ ?d),
               offsets := (offsets w)(enc_w e \<mapsto> length content + length ?d)\<rparr>"
  have step: "Write go_wav e f w = (Inr ?e, ?w)"
    using Cons.prems by (simp add: go_wav_def wav_Write_def file_Write_append)
  have "write_loop go_wav e (f # frames) w = write_loop go_wav ?e frames ?w"
    by (simp add: step)
  also have "\<dots> =
     (Inr (?e\<lparr>enc_WrittenBytes := enc_WrittenBytes ?e +
              length (encode_samples (enc_BitDepth ?e) (concat (map Data frames)))\<rparr>),
      ?w\<lparr>files := (files ?w)(enc_w ?e \<mapsto>
              (content @ ?d) @ encode_samples (enc_BitDepth ?e) (concat (map Data frames))),
        offsets := (offsets ?w)(enc_w ?e \<mapsto>
              length (content @ ?d) + length (encode_samples (enc_BitDepth ?e) (concat (map Data frames))))\<rparr>)"
    by (rule Cons.IH) (use Cons.prems in simp_all)
  also have "\<dots> =
     (Inr (e\<lparr>enc_WrittenBytes := enc_WrittenBytes e +
              length (encode_samples (enc_BitDepth e) (concat (map Data (f # frames))))\<rparr>),
      w\<lparr>files := (files w)(enc_w e \<mapsto>
              content @ encode_samples (enc_BitDepth e) (concat (map Data (f # frames)))),
        offsets := (offsets w)(enc_w e \<mapsto>
              length content + length (encode_samples (enc_BitDepth e) (concat (map Data (f # frames)))))\<rparr>)"
    using Cons.prems(4) by (simp add: add.assoc)
  finally show ?case .
qed

lemma wav_Close_patch:
  assumes "files w (enc_w e) = Some (h1 @ s1 @ mid @ s2 @ data)"
    and "length h1 = 4" and "length s1 = 4" and "length mid = 32" and "length s2 = 4"
    and "offsets w (enc_w e) = Some off"
  shows "wav_Close e w =
     (None, w\<lparr>files := (files w)(enc_w e \<mapsto>
                 h1 @ le32 (word_of_nat (enc_WrittenBytes e - 8)) @ mid @
                 le32 (word_of_nat (enc_WrittenBytes e - 44)) @ data),
               offsets := (offsets w)(enc_w e \<mapsto> 44 + length data)\<rparr>)"
  using assms
  by (simp add: wav_Close_def file_Seek_def file_Write_def write_at_def nat_add_distrib)

lemma read_back:
  assumes "files w name = Some content" and "offsets w name = Some off"
  shows "io_ReadAll name (file_Seek name 0 0 w) =
     (Inr content, w\<lparr>offsets := (offsets w)(name \<mapsto> length content)\<rparr>)"
  using assms by (simp add: io_ReadAll_def file_Seek_def)

lemma encode_frames_go_wav:
  assumes "files w name = Some []" and "offsets w name = Some 0"
    and "supported_depth bd" and "frames \<noteq> []"
  shows "encode_frames go_wav name p bd frames w =
     (Inr (encoded_file (SampleRate p) bd (NumChannels p) 1
             (encode_samples bd (concat (map Data frames)))),
      w\<lparr>files := (files w)(name \<mapsto>
                encoded_file (SampleRate p) bd (NumChannels p) 1
                  (encode_samples bd (concat (map Data frames)))),
        offsets := (offsets w)(name \<mapsto>
                44 + length (encode_samples bd (concat (map Data frames))))\<rparr>)"
proof -
  from assms(4) obtain f fs where frames: "frames = f # fs"
    by (cases frames) auto
  define e0 where "e0 = wav_NewEncoder name (SampleRate p) bd (NumChannels p) 1"
  define h where "h = encoder_header e0"
  define d1 where "d1 = encode_samples bd (Data f)"
  define d where "d = encode_samples bd (concat (map Data frames))"
  define e1 where "e1 = e0\<lparr>enc_wroteHeader := True, enc_WrittenBytes := 44 + length d1\<rparr>"
  define w1 where "w1 = w\<lparr>files := (files w)(name \<mapsto> h @ d1),
               offsets := (offsets w)(name \<mapsto> 44 + length d1)\<rparr>"
  define e2 where "e2 = e0\<lparr>enc_wroteHeader := True, enc_WrittenBytes := 44 + length d\<rparr>"
  define w2 where "w2 = w\<lparr>files := (files w)(name \<mapsto> h @ d),
               offsets := (offsets w)(name \<mapsto> 44 + length d)\<rparr>"
  define out where "out = encoded_file (SampleRate p) bd (NumChannels p) 1 d"
  define w3 where "w3 = w\<lparr>files := (files w)(name \<mapsto> out),
               offsets := (offsets w)(name \<mapsto> 44 + length d)\<rparr>"
  have e0: "enc_w e0 = name" "enc_BitDepth e0 = bd" "\<not> enc_wroteHeader e0"
    "enc_WrittenBytes e0 = 0"
    by (simp_all add: e0_def wav_NewEncoder_def)
  have lh: "length h = 44"
    by (simp add: h_def encoder_header_def Let_def)
  have dd: "d = d1 @ encode_samples bd (concat (map Data fs))"
    by (simp add: d_def d1_def frames)
  have first: "Write go_wav e0 f w = (Inr e1, w1)"
    using assms(1,2,3) lh e0
    by (simp add: go_wav_def wav_Write_def file_Write_def write_at_def e1_def w1_def h_def d1_def)
  have "write_loop go_wav e1 fs w1 =
     (Inr (e1\<lparr>enc_WrittenBytes := enc_WrittenBytes e1 +
              length (encode_samples (enc_BitDepth e1) (concat (map Data fs)))\<rparr>),
      w1\<lparr>files := (files w1)(enc_w e1 \<mapsto>
              (h @ d1) @ encode_samples (enc_BitDepth e1) (concat (map Data fs))),
        offsets := (offsets w1)(enc_w e1 \<mapsto>
              length (h @ d1) + length (encode_samples (enc_BitDepth e1) (concat (map Data fs))))\<rparr>)"
    by (rule write_loop_go_wav) (use assms(3) lh e0 in \<open>simp_all add: e1_def w1_def\<close>)
  also have "\<dots> = (Inr e2, w2)"
    using e0 lh by (simp add: e1_def e2_def w1_def w2_def dd add.assoc)
  finally have rest: "write_loop go_wav e1 fs w1 = (Inr e2, w2)" .
  have loop: "write_loop go_wav e0 frames w = (Inr e2, w2)"
    by (simp add: frames first rest)
  have e2: "enc_w e2 = name" "enc_WrittenBytes e2 = 44 + length d"
    using e0 by (simp_all add: e2_def)
  have content: "files w2 (enc_w e2) = Some (bytes_of ''RIFF'' @ le32 42 @
      (bytes_of ''WAVE'' @ bytes_of ''fmt '' @ le32 16 @
      le16 (word_of_int 1) @ le16 (word_of_int (NumChannels p)) @
      le32 (word_of_int (SampleRate p)) @
      le32 (word_of_int (SampleRate p * ((NumChannels p * bd) sdiv 8))) @
      le16 (word_of_int ((NumChannels p * bd) sdiv 8)) @ le16 (word_of_int bd) @
      bytes_of ''data'') @ le32 42 @ d)"
    by (simp add: e2 w2_def h_def e0_def wav_NewEncoder_def encoder_header_def Let_def)
  have off: "offsets w2 (enc_w e2) = Some (44 + length d)"
    by (simp add: e2 w2_def)
  have "wav_Close e2 w2 =
     (None, w2\<lparr>files := (files w2)(enc_w e2 \<mapsto> out),
               offsets := (offsets w2)(enc_w e2 \<mapsto> 44 + length d)\<rparr>)"
    unfolding out_def encoded_file_def
    by (rule wav_Close_patch [OF content _ _ _ _ off, THEN trans])
       (simp_all add: e2 add.commute)
  also have "\<dots> = (None, w3)"
    by (simp add: e2 w2_def w3_def)
  finally have close: "wav_Close e2 w2 = (None, w3)" .
  have lo: "length out = 44 + length d"
    by (simp add: out_def encoded_file_def)
  have "io_ReadAll name (file_Seek name 0 0 w3) =
     (Inr out, w3\<lparr>offsets := (offsets w3)(name \<mapsto> length out)\<rparr>)"
    by (rule read_back [where off = "44 + length d"]) (simp_all add: w3_def)
  also have "\<dots> = (Inr out, w3)"
    by (simp add: w3_def lo)
  finally have read: "io_ReadAll name (file_Seek name 0 0 w3) = (Inr out, w3)" .
  have "encode_frames go_wav name p bd frames w = (Inr out, w3)"
    unfolding encode_frames_def Let_def
    using loop close read
    by (simp add: go_wav_def e0_def)
  then show ?thesis
    by (simp add: out_def w3_def d_def)
qed

lemma go_wav_simps:
  "IsValidFile go_wav = wav_IsValidFile" "FullPCMBuffer go_wav = wav_FullPCMBuffer"
  "BitDepth go_wav = wav_BitDepth" "CreateTemp go_wav = os_CreateTemp"
  "File_Close go_wav = file_Close"
  by (simp_all add: go_wav_def)

lemma accepted_go_wav:
  "accepted go_wav b \<longleftrightarrow>
     (\<exists>fmt payload. parse_wav b = Some (fmt, payload) \<and> supported_depth (fmt_BitsPerSample fmt))"
  by (auto simp: accepted_def go_wav_simps wav_IsValidFile_def wav_FullPCMBuffer_def
      split: option.splits)

lemma parse_wav_ranges:
  assumes "parse_wav b = Some (fmt, payload)"
  shows "0 \<le> fmt_SampleRate fmt" "fmt_SampleRate fmt < 2 ^ 32"
    "0 \<le> fmt_NumChannels fmt" "fmt_NumChannels fmt < 2 ^ 16"
    "0 \<le> fmt_BitsPerSample fmt" "fmt_BitsPerSample fmt < 2 ^ 16"
    "length payload \<le> length b - 44"
proof -
  have u32: "uint (x :: 32 word) < 2 ^ 32" for x
    using uint_bounded [of x] by simp
  have u16: "uint (x :: 16 word) < 2 ^ 16" for x
    using uint_bounded [of x] by simp
  from assms have
    "fmt = \<lparr>fmt_SampleRate = uint (Uint32 (slice_of b 24 28)),
             fmt_NumChannels = uint (Uint16 (slice_of b 22 24)),
             fmt_BitsPerSample = uint (Uint16 (slice_of b 34 36))\<rparr>"
    and "payload = take (unat (Uint32 (slice_of b 40 44))) (drop 44 b)"
    by (auto simp: parse_wav_def split: if_splits)
  then show "0 \<le> fmt_SampleRate fmt" "fmt_SampleRate fmt < 2 ^ 32"
    "0 \<le> fmt_NumChannels fmt" "fmt_NumChannels fmt < 2 ^ 16"
    "0 \<le> fmt_BitsPerSample fmt" "fmt_BitsPerSample fmt < 2 ^ 16"
    "length payload \<le> length b - 44"
    using u32 u16 by simp_all
qed

lemma go_wav_decoded:
  assumes "parse_wav b = Some (fmt, payload)" and "supported_depth (fmt_BitsPerSample fmt)"
  shows "format_of go_wav b =
           \<lparr>NumChannels = fmt_NumChannels fmt, SampleRate = fmt_SampleRate fmt\<rparr>"
    and "samples_of go_wav b = decode_samples (fmt_BitsPerSample fmt) payload"
    and "uint (BitDepth go_wav b) = fmt_BitsPerSample fmt"
proof -
  show "format_of go_wav b =
           \<lparr>NumChannels = fmt_NumChannels fmt, SampleRate = fmt_SampleRate fmt\<rparr>"
    using assms by (simp add: format_of_def go_wav_simps wav_FullPCMBuffer_def)
  show "samples_of go_wav b = decode_samples (fmt_BitsPerSample fmt) payload"
    using assms by (simp add: samples_of_def go_wav_simps wav_FullPCMBuffer_def)
  have "uint (word_of_int (fmt_BitsPerSample fmt) :: 16 word) = fmt_BitsPerSample fmt"
    using parse_wav_ranges(5,6) [OF assms(1)]
    by (simp add: uint_word_of_int take_bit_eq_mod)
  then show "uint (BitDepth go_wav b) = fmt_BitsPerSample fmt"
    using assms by (simp add: go_wav_simps wav_BitDepth_def)
qed

lemma encoded_file_fields:
  fixes sr bd nc af dat
  defines "w \<equiv> encoded_file sr bd nc af dat"
  shows "slice_of w 0 4 = bytes_of ''RIFF''"
    and "slice_of w 8 12 = bytes_of ''WAVE''"
    and "slice_of w 12 16 = bytes_of ''fmt ''"
    and "Uint32 (slice_of w 16 20) = 16"
    and "Uint16 (slice_of w 20 22) = word_of_int af"
    and "Uint16 (slice_of w 22 24) = word_of_int nc"
    and "Uint32 (slice_of w 24 28) = word_of_int sr"
    and "Uint16 (slice_of w 34 36) = word_of_int bd"
    and "slice_of w 36 40 = bytes_of ''data''"
    and "Uint32 (slice_of w 40 44) = word_of_nat (length dat)"
    and "drop 44 w = dat"
    and "length w = 44 + length dat"
  unfolding w_def encoded_file_def slice_of_def
  by (simp_all add: Uint16_le16 [of _ "[]", simplified] Uint32_le32 [of _ "[]", simplified])

lemma parse_encoded_file:
  assumes "0 \<le> sr" and "sr < 2 ^ 32" and "0 \<le> nc" and "nc < 2 ^ 16"
    and "0 \<le> bd" and "bd < 2 ^ 16"
  shows "parse_wav (encoded_file sr bd nc 1 dat) =
     Some (\<lparr>fmt_SampleRate = sr, fmt_NumChannels = nc, fmt_BitsPerSample = bd\<rparr>,
           take (length dat mod 2 ^ 32) dat)"
proof -
  have "unat (word_of_nat (length dat) :: 32 word) = length dat mod 2 ^ 32"
    by (simp only: unat_of_nat) simp
  moreover have "uint (word_of_int sr :: 32 word) = sr"
    using assms(1,2) by (simp add: uint_word_of_int take_bit_eq_mod)
  moreover have "uint (word_of_int nc :: 16 word) = nc"
    using assms(3,4) by (simp add: uint_word_of_int take_bit_eq_mod)
  moreover have "uint (word_of_int bd :: 16 word) = bd"
    using assms(5,6) by (simp add: uint_word_of_int take_bit_eq_mod)
  ultimately show ?thesis
    unfolding parse_wav_def
    by (simp only: encoded_file_fields) simp
qed

lemma fresh_name_free:
  "fresh_name fs names = Some (name, ss) \<Longrightarrow> fs name = None"
  by (induction names) (auto split: if_splits)

lemma os_CreateTemp_fresh:
  assumes "fresh_name (files w) (temp_names w) = Some (name, ss)"
  shows "os_CreateTemp w =
     (Inr name, \<lparr>files = (files w)(name \<mapsto> []), offsets = (offsets w)(name \<mapsto> 0),
                 temp_names = ss\<rparr>)"
  using assms by (simp add: os_CreateTemp_def)

lemma accepted_supported:
  assumes "accepted go_wav b"
  shows "supported_depth (uint (BitDepth go_wav b))"
proof -
  from assms obtain fmt payload where
    "parse_wav b = Some (fmt, payload)" "supported_depth (fmt_BitsPerSample fmt)"
    by (auto simp: accepted_go_wav)
  then show ?thesis
    by (simp add: go_wav_decoded(3))
qed

lemma ConcatWavBytes_go_wav:
  assumes "ws \<noteq> []"
    and "\<forall>b\<in>set ws. accepted go_wav b \<and> same_params go_wav (hd ws) b"
    and "fresh_name (files w) (temp_names w) = Some (name, ss)"
  shows "ConcatWavBytes go_wav ws w =
     (Inr (concat_output ws),
      \<lparr>files = (files w)(name \<mapsto> concat_output ws), offsets = (offsets w)(name := None),
       temp_names = ss\<rparr>)"
proof -
  let ?frames = "map (\<lambda>b. projr (FullPCMBuffer go_wav b)) ws"
  let ?p = "format_of go_wav (hd ws)"
  let ?bd = "uint (BitDepth go_wav (last ws))"
  let ?w1 = "\<lparr>files = (files w)(name \<mapsto> []), offsets = (offsets w)(name \<mapsto> 0),
              temp_names = ss\<rparr>"
  have loop: "decode_loop go_wav ws ([], None, 0) = Inr (?frames, Some ?p, ?bd)"
    by (rule decode_loop_prefix [OF assms(1,2)])
  have "last ws \<in> set ws"
    using assms(1) by simp
  with assms(2) have bd: "supported_depth ?bd"
    using accepted_supported by blast
  have data: "concat (map Data ?frames) = concat (map (samples_of go_wav) ws)"
    by (simp add: samples_of_def [abs_def] comp_def)
  have "encode_frames go_wav name ?p ?bd ?frames ?w1 =
     (Inr (encoded_file (SampleRate ?p) ?bd (NumChannels ?p) 1
             (encode_samples ?bd (concat (map Data ?frames)))),
      ?w1\<lparr>files := (files ?w1)(name \<mapsto>
                encoded_file (SampleRate ?p) ?bd (NumChannels ?p) 1
                  (encode_samples ?bd (concat (map Data ?frames)))),
        offsets := (offsets ?w1)(name \<mapsto>
                44 + length (encode_samples ?bd (concat (map Data ?frames))))\<rparr>)"
    by (rule encode_frames_go_wav) (use assms(1) bd in simp_all)
  then have enc: "encode_frames go_wav name ?p ?bd ?frames ?w1 =
     (Inr (concat_output ws),
      \<lparr>files = (files w)(name \<mapsto> concat_output ws),
       offsets = (offsets w)(name \<mapsto>
          44 + length (encode_samples ?bd (concat (map (samples_of go_wav) ws)))),
       temp_names = ss\<rparr>)"
    by (simp only: data concat_output_def) simp
  show ?thesis
    unfolding ConcatWavBytes_def
    by (simp add: loop go_wav_simps(4,5) os_CreateTemp_fresh [OF assms(3)] enc file_Close_def)
qed

lemma decode_samples_Nil [simp]: "decode_samples bd [] = []"
  by (simp add: decode_samples_def samples8_def)

lemma decode_encode_fixed:
  assumes "supported_depth bd" and "\<forall>v\<in>set vs. cut_sample bd v = v"
  shows "decode_samples bd (encode_samples bd vs) = vs"
proof -
  have "decode_samples bd (encode_samples bd vs @ []) = map (cut_sample bd) vs @ decode_samples bd []"
    by (rule decode_encode_samples [OF assms(1)])
  with assms(2) show ?thesis
    by (simp add: map_idI)
qed

lemma length_reencoded:
  assumes "supported_depth bd"
  shows "length (encode_samples bd (decode_samples bd payload)) \<le> length payload"
  using assms
  by (simp add: length_encode_samples length_decode_samples)

lemma parse_concat_output:
  assumes "ws \<noteq> []" and "accepted go_wav (hd ws)" and "accepted go_wav (last ws)"
  shows "parse_wav (concat_output ws) =
     Some (\<lparr>fmt_SampleRate = SampleRate (format_of go_wav (hd ws)),
             fmt_NumChannels = NumChannels (format_of go_wav (hd ws)),
             fmt_BitsPerSample = uint (BitDepth go_wav (last ws))\<rparr>,
           take (length (encode_samples (uint (BitDepth go_wav (last ws)))
                   (concat (map (samples_of go_wav) ws))) mod 2 ^ 32)
             (encode_samples (uint (BitDepth go_wav (last ws)))
                (concat (map (samples_of go_wav) ws))))"
proof -
  from assms(2) obtain fmt payload where
    h: "parse_wav (hd ws) = Some (fmt, payload)" "supported_depth (fmt_BitsPerSample fmt)"
    by (auto simp: accepted_go_wav)
  from assms(3) obtain fmt' payload' where
    l: "parse_wav (last ws) = Some (fmt', payload')" "supported_depth (fmt_BitsPerSample fmt')"
    by (auto simp: accepted_go_wav)
  show ?thesis
    unfolding concat_output_def
    by (rule parse_encoded_file)
       (use parse_wav_ranges [OF h(1)] parse_wav_ranges [OF l(1)] in
         \<open>simp_all add: go_wav_decoded [OF h] go_wav_decoded [OF l]\<close>)
qed

text \<open>
  The output decodes to the samples of the inputs, each cut to the bit depth of the last
  input.
\<close>

lemma concat_output_samples:
  assumes "ws \<noteq> []"
    and "\<forall>b\<in>set ws. accepted go_wav b"
    and "sum_list (map (\<lambda>b. length (samples_of go_wav b)) ws) < 2 ^ 30"
  shows "samples_of go_wav (concat_output ws) =
     map (cut_sample (uint (BitDepth go_wav (last ws)))) (concat (map (samples_of go_wav) ws))"
proof -
  let ?bd = "uint (BitDepth go_wav (last ws))"
  let ?vs = "concat (map (samples_of go_wav) ws)"
  have hl: "accepted go_wav (hd ws)" "accepted go_wav (last ws)"
    using assms(1,2) by simp_all
  have bd: "supported_depth ?bd"
    using hl(2) by (rule accepted_supported)
  have len: "length ?vs < 2 ^ 30"
    using assms(3) by (simp add: length_concat comp_def)
  have "nat (?bd div 8) \<le> 4"
    using bd by (auto simp: supported_depth_def)
  then have "nat (?bd div 8) * length ?vs \<le> 4 * length ?vs"
    by (rule mult_le_mono1)
  also have "\<dots> < 4 * 2 ^ 30"
    using len by simp
  finally have small: "length (encode_samples ?bd ?vs) mod 2 ^ 32 = length (encode_samples ?bd ?vs)"
    by (simp add: length_encode_samples [OF bd])
  have parse: "parse_wav (concat_output ws) =
     Some (\<lparr>fmt_SampleRate = SampleRate (format_of go_wav (hd ws)),
             fmt_NumChannels = NumChannels (format_of go_wav (hd ws)),
             fmt_BitsPerSample = ?bd\<rparr>, encode_samples ?bd ?vs)"
    using parse_concat_output [OF assms(1) hl] small by simp
  show ?thesis
    using go_wav_decoded(2) [OF parse] bd decode_encode_samples [OF bd, of ?vs "[]"]
    by simp
qed

lemma samples_reencode:
  assumes "accepted go_wav b" and "uint (BitDepth go_wav b) = bd"
  shows "\<forall>v\<in>set (samples_of go_wav b). cut_sample bd v = v"
    and "length (encode_samples bd (samples_of go_wav b)) \<le> length b"
proof -
  from assms(1) obtain fmt payload where
    p: "parse_wav b = Some (fmt, payload)" "supported_depth (fmt_BitsPerSample fmt)"
    by (auto simp: accepted_go_wav)
  have bd: "fmt_BitsPerSample fmt = bd"
    using go_wav_decoded(3) [OF p] assms(2) by simp
  have s: "samples_of go_wav b = decode_samples bd payload"
    using go_wav_decoded(2) [OF p] bd by simp
  show "\<forall>v\<in>set (samples_of go_wav b). cut_sample bd v = v"
    using cut_decoded p(2) bd s by auto
  have "length (encode_samples bd (samples_of go_wav b)) \<le> length payload"
    using length_reencoded p(2) bd s by simp
  also have "\<dots> \<le> length b"
    using parse_wav_ranges(7) [OF p(1)] by simp
  finally show "length (encode_samples bd (samples_of go_wav b)) \<le> length b" .
qed

lemma length_encode_concat:
  assumes "\<forall>b\<in>set ws. length (encode_samples bd (f b)) \<le> length b"
  shows "length (encode_samples bd (concat (map f ws))) \<le> sum_list (map length ws)"
  using assms by (induction ws) (auto simp: add_mono)

section \<open>The example inputs\<close>

text \<open>What the decoder of \<open>go_wav\<close> finds in the example inputs.\<close>

lemma parse_examples:
  "parse_wav wav_16k_16bit =
     Some (\<lparr>fmt_SampleRate = 16000, fmt_NumChannels = 1, fmt_BitsPerSample = 16\<rparr>, [0xE8, 0x03])"
  "parse_wav wav_16k_8bit =
     Some (\<lparr>fmt_SampleRate = 16000, fmt_NumChannels = 1, fmt_BitsPerSample = 8\<rparr>, [0x05])"
  "parse_wav wav_8k_16bit =
     Some (\<lparr>fmt_SampleRate = 8000, fmt_NumChannels = 1, fmt_BitsPerSample = 16\<rparr>, [0x01, 0x00])"
  "parse_wav not_a_wav = None"
  by (simp_all add: parse_wav_def slice_of_def bytes_of_def wav_16k_16bit_def wav_16k_8bit_def
      wav_8k_16bit_def not_a_wav_def)

lemma accepted_examples:
  "accepted go_wav wav_16k_16bit" "accepted go_wav wav_16k_8bit" "accepted go_wav wav_8k_16bit"
  "\<not> IsValidFile go_wav not_a_wav"
  by (simp_all add: accepted_go_wav parse_examples supported_depth_def go_wav_simps
      wav_IsValidFile_def)

lemma format_examples:
  "format_of go_wav wav_16k_16bit = \<lparr>NumChannels = 1, SampleRate = 16000\<rparr>"
  "format_of go_wav wav_16k_8bit = \<lparr>NumChannels = 1, SampleRate = 16000\<rparr>"
  "format_of go_wav wav_8k_16bit = \<lparr>NumChannels = 1, SampleRate = 8000\<rparr>"
  by (simp_all add: format_of_def go_wav_simps wav_FullPCMBuffer_def parse_examples
      supported_depth_def)

lemma samples_examples:
  "samples_of go_wav wav_16k_16bit = [1000]"
  "samples_of go_wav wav_16k_8bit = [5]"
  by (simp_all add: samples_of_def go_wav_simps wav_FullPCMBuffer_def parse_examples
      supported_depth_def decode_samples_def samples8_def)

lemma depth_examples:
  "BitDepth go_wav wav_16k_16bit = 16" "BitDepth go_wav wav_16k_8bit = 8"
  by (simp_all add: go_wav_simps wav_BitDepth_def parse_examples)

lemma fresh_empty_tmp:
  "fresh_name (files empty_tmp) (temp_names empty_tmp) = Some (''output-1.wav'', [])"
  by (simp add: empty_tmp_def)

lemma run_examples:
  assumes "ws \<noteq> []"
    and "\<forall>b\<in>set ws. accepted go_wav b \<and> same_params go_wav (hd ws) b"
  shows "ConcatWavBytes go_wav ws empty_tmp =
     (Inr (concat_output ws),
      \<lparr>files = [''output-1.wav'' \<mapsto> concat_output ws], offsets = Map.empty, temp_names = []\<rparr>)"
  using ConcatWavBytes_go_wav [OF assms fresh_empty_tmp] by (simp add: empty_tmp_def)

lemma output_mixed:
  "concat_output [wav_16k_16bit, wav_16k_8bit] =
     encoded_file 16000 8 1 1 [0xE8, 0x05]"
proof -
  have "encode_samples 8 [1000, 5] = [0xE8, 0x05]"
    by (simp add: encode_samples_def encode_sample_def)
  then show ?thesis
    by (simp add: concat_output_def format_examples depth_examples samples_examples)
qed

section \<open>Properties of ConcatWavBytes\<close>

text \<open>
  C6: \<^verbatim>\<open>ConcatWavBytes\<close> of an empty list of buffers fails with \<open>EmptyInput\<close>. The loop
  ends with \<open>params\<close> still \<^verbatim>\<open>nil\<close> and nothing accumulated; no temporary file is
  created and no encoder is run (the file system is returned as it was), and no buffer is
  returned. This holds for every decoder, encoder and file system.
\<close>

theorem ConcatWavBytes_empty:
  "decode_loop L [] ([], None, 0) = Inr ([], None, 0) \<and>
   ConcatWavBytes L [] w = (Inl EmptyInput, w)"
  by (simp add: ConcatWavBytes_def)

text \<open>
  The empty list with the library \<open>go_wav\<close> and the empty temporary directory.
\<close>

theorem ConcatWavBytes_empty_witness:
  "decode_loop go_wav [] ([], None, 0) = Inr ([], None, 0) \<and>
   ConcatWavBytes go_wav [] empty_tmp = (Inl EmptyInput, empty_tmp)"
  using ConcatWavBytes_empty [of go_wav empty_tmp] by simp

text \<open>
  C7, amended: when every buffer in front of a buffer that is no valid WAV file decodes and
  has the sample rate and channel count of the first buffer, \<^verbatim>\<open>ConcatWavBytes\<close> fails with
  \<open>InvalidFormat\<close> at that buffer. The buffers after it (\<open>post\<close>) are never examined: the
  result is the same whatever they are, and the file system is untouched. This holds for
  every decoder.
\<close>

theorem ConcatWavBytes_invalid:
  assumes "\<forall>b\<in>set pre. accepted L b \<and> same_params L (hd pre) b"
    and "\<not> IsValidFile L bad"
  shows "ConcatWavBytes L (pre @ bad # post) w = (Inl InvalidFormat, w)"
  using assms by (rule loop_stops_at_invalid)

text \<open>
  One WAV file, then the four bytes that are none, then one more WAV file.
\<close>

theorem ConcatWavBytes_invalid_witness:
  "accepted go_wav wav_16k_16bit \<and> same_params go_wav wav_16k_16bit wav_16k_16bit \<and>
   \<not> IsValidFile go_wav not_a_wav \<and>
   ConcatWavBytes go_wav ([wav_16k_16bit] @ not_a_wav # [wav_8k_16bit]) empty_tmp =
     (Inl InvalidFormat, empty_tmp)"
proof -
  have pre: "\<forall>b\<in>set [wav_16k_16bit]. accepted go_wav b \<and> same_params go_wav (hd [wav_16k_16bit]) b"
    by (simp add: accepted_examples same_params_def)
  from ConcatWavBytes_invalid [OF pre accepted_examples(4)] show ?thesis
    by (simp add: accepted_examples same_params_def)
qed

text \<open>
  C7 as stated, for every list that contains a buffer that is no WAV file, fails: when an
  earlier buffer has another sample rate than the first, the call returns at that buffer
  with \<open>FormatMismatch\<close> and never reaches the buffer that is no WAV file.
\<close>

theorem ConcatWavBytes_invalid_counterexample:
  "\<not> IsValidFile go_wav not_a_wav \<and>
   fst (ConcatWavBytes go_wav [wav_16k_16bit, wav_8k_16bit, not_a_wav] empty_tmp) =
     Inl FormatMismatch \<and>
   fst (ConcatWavBytes go_wav [wav_16k_16bit, wav_8k_16bit, not_a_wav] empty_tmp) \<noteq>
     Inl InvalidFormat"
proof -
  have "ConcatWavBytes go_wav [wav_16k_16bit, wav_8k_16bit, not_a_wav] empty_tmp =
     (Inl FormatMismatch, empty_tmp)"
    by (rule loop_stops_at_mismatch [where i = 1])
       (simp_all add: accepted_examples same_params_def format_examples less_Suc_eq_le
         le_Suc_eq)
  then show ?thesis
    by (simp add: accepted_examples)
qed

text \<open>
  C5, amended: when the buffer at a position \<open>i > 0\<close> decodes and its sample rate or
  channel count differs from the first buffer's, and every buffer in front of it decodes
  too, \<^verbatim>\<open>ConcatWavBytes\<close> fails with \<open>FormatMismatch\<close> and produces no output buffer;
  the file system is untouched. This holds for every decoder.
\<close>

theorem ConcatWavBytes_mismatch:
  assumes "0 < i" and "i < length wavBytes"
    and "\<forall>j\<le>i. accepted L (wavBytes ! j)"
    and "\<not> same_params L (wavBytes ! 0) (wavBytes ! i)"
  shows "ConcatWavBytes L wavBytes w = (Inl FormatMismatch, w)"
  using assms by (rule loop_stops_at_mismatch)

text \<open>
  A 16 kHz file followed by an 8 kHz file.
\<close>

theorem ConcatWavBytes_mismatch_witness:
  "(0::nat) < 1 \<and> 1 < length [wav_16k_16bit, wav_8k_16bit, not_a_wav] \<and>
   accepted go_wav wav_16k_16bit \<and> accepted go_wav wav_8k_16bit \<and>
   \<not> same_params go_wav wav_16k_16bit wav_8k_16bit \<and>
   ConcatWavBytes go_wav [wav_16k_16bit, wav_8k_16bit, not_a_wav] empty_tmp =
     (Inl FormatMismatch, empty_tmp)"
proof -
  have acc: "\<forall>j\<le>1. accepted go_wav ([wav_16k_16bit, wav_8k_16bit, not_a_wav] ! j)"
    by (simp add: accepted_examples le_Suc_eq)
  have diff: "\<not> same_params go_wav ([wav_16k_16bit, wav_8k_16bit, not_a_wav] ! 0)
     ([wav_16k_16bit, wav_8k_16bit, not_a_wav] ! 1)"
    by (simp add: same_params_def format_examples)
  from ConcatWavBytes_mismatch [OF _ _ acc diff, of empty_tmp] show ?thesis
    by (simp add: accepted_examples same_params_def format_examples)
qed

text \<open>
  C5 as stated, for every list with such a buffer somewhere after the first, fails: when
  a buffer in front of it is no WAV file, the call returns at that buffer with
  \<open>InvalidFormat\<close>.
\<close>

theorem ConcatWavBytes_mismatch_counterexample:
  "accepted go_wav wav_16k_16bit \<and> accepted go_wav wav_8k_16bit \<and>
   \<not> same_params go_wav wav_16k_16bit wav_8k_16bit \<and>
   fst (ConcatWavBytes go_wav [wav_16k_16bit, not_a_wav, wav_8k_16bit] empty_tmp) =
     Inl InvalidFormat \<and>
   fst (ConcatWavBytes go_wav [wav_16k_16bit, not_a_wav, wav_8k_16bit] empty_tmp) \<noteq>
     Inl FormatMismatch"
proof -
  have pre: "\<forall>b\<in>set [wav_16k_16bit]. accepted go_wav b \<and> same_params go_wav (hd [wav_16k_16bit]) b"
    by (simp add: accepted_examples same_params_def)
  from loop_stops_at_invalid [OF pre accepted_examples(4), of "[wav_8k_16bit]" empty_tmp]
  show ?thesis
    by (simp add: accepted_examples same_params_def format_examples)
qed

text \<open>
  C3: when the inputs decode and share sample rate and channel count, and the temporary
  file can be created, \<^verbatim>\<open>ConcatWavBytes\<close> succeeds whatever the bit depths of the inputs
  are, and the header of the output carries the sample rate and the channel count of the
  first input and the bit depth of the last input.
\<close>

theorem ConcatWavBytes_header:
  assumes "wavBytes \<noteq> []"
    and "\<forall>b\<in>set wavBytes. accepted go_wav b \<and> same_params go_wav (hd wavBytes) b"
    and "fresh_name (files w) (temp_names w) \<noteq> None"
  shows "\<exists>out. fst (ConcatWavBytes go_wav wavBytes w) = Inr out \<and>
     map_option fst (parse_wav out) =
       Some \<lparr>fmt_SampleRate = SampleRate (format_of go_wav (hd wavBytes)),
             fmt_NumChannels = NumChannels (format_of go_wav (hd wavBytes)),
             fmt_BitsPerSample = uint (BitDepth go_wav (last wavBytes))\<rparr>"
proof -
  from assms(3) obtain name ss where
    "fresh_name (files w) (temp_names w) = Some (name, ss)"
    by auto
  from ConcatWavBytes_go_wav [OF assms(1,2) this]
  have "fst (ConcatWavBytes go_wav wavBytes w) = Inr (concat_output wavBytes)"
    by simp
  moreover have "accepted go_wav (hd wavBytes)" "accepted go_wav (last wavBytes)"
    using assms(1,2) by simp_all
  from parse_concat_output [OF assms(1) this]
  have "map_option fst (parse_wav (concat_output wavBytes)) =
       Some \<lparr>fmt_SampleRate = SampleRate (format_of go_wav (hd wavBytes)),
             fmt_NumChannels = NumChannels (format_of go_wav (hd wavBytes)),
             fmt_BitsPerSample = uint (BitDepth go_wav (last wavBytes))\<rparr>"
    by simp
  ultimately show ?thesis
    by blast
qed

text \<open>
  A 16-bit file followed by an 8-bit file: the output is an 8-bit file.
\<close>

theorem ConcatWavBytes_header_witness:
  "[wav_16k_16bit, wav_16k_8bit] \<noteq> [] \<and>
   accepted go_wav wav_16k_16bit \<and> same_params go_wav wav_16k_16bit wav_16k_16bit \<and>
   accepted go_wav wav_16k_8bit \<and> same_params go_wav wav_16k_16bit wav_16k_8bit \<and>
   BitDepth go_wav wav_16k_16bit = 16 \<and> BitDepth go_wav wav_16k_8bit = 8 \<and>
   fresh_name (files empty_tmp) (temp_names empty_tmp) \<noteq> None \<and>
   (\<exists>out. fst (ConcatWavBytes go_wav [wav_16k_16bit, wav_16k_8bit] empty_tmp) = Inr out \<and>
      map_option fst (parse_wav out) =
        Some \<lparr>fmt_SampleRate = 16000, fmt_NumChannels = 1, fmt_BitsPerSample = 8\<rparr>)"
proof -
  have h: "\<forall>b\<in>set [wav_16k_16bit, wav_16k_8bit].
      accepted go_wav b \<and> same_params go_wav (hd [wav_16k_16bit, wav_16k_8bit]) b"
    by (simp add: accepted_examples same_params_def format_examples)
  have f: "fresh_name (files empty_tmp) (temp_names empty_tmp) \<noteq> None"
    by (simp add: fresh_empty_tmp)
  from ConcatWavBytes_header [OF _ h f] show ?thesis
    by (simp add: accepted_examples same_params_def format_examples depth_examples
        fresh_empty_tmp)
qed

text \<open>
  C1, amended: for every non-empty list of buffers that decode, share sample rate, channel
  count and bit depth and hold less than \<open>2 ^ 32\<close> bytes together, when the temporary file
  can be created, \<^verbatim>\<open>ConcatWavBytes\<close> succeeds and returns a WAV buffer that decodes to the
  samples of the inputs in input order; their number is the sum of the inputs' sample
  counts.
\<close>

theorem ConcatWavBytes_roundtrip:
  assumes "wavBytes \<noteq> []"
    and "\<forall>b\<in>set wavBytes. accepted go_wav b \<and> same_params go_wav (hd wavBytes) b \<and>
           BitDepth go_wav b = BitDepth go_wav (hd wavBytes)"
    and "sum_list (map length wavBytes) < 2 ^ 32"
    and "fresh_name (files w) (temp_names w) \<noteq> None"
  shows "\<exists>out. fst (ConcatWavBytes go_wav wavBytes w) = Inr out \<and> accepted go_wav out \<and>
     samples_of go_wav out = concat (map (samples_of go_wav) wavBytes) \<and>
     length (samples_of go_wav out) =
       sum_list (map (\<lambda>b. length (samples_of go_wav b)) wavBytes)"
proof -
  let ?bd = "uint (BitDepth go_wav (last wavBytes))"
  let ?vs = "concat (map (samples_of go_wav) wavBytes)"
  let ?out = "concat_output wavBytes"
  from assms(4) obtain name ss where
    "fresh_name (files w) (temp_names w) = Some (name, ss)"
    by auto
  moreover have acc: "\<forall>b\<in>set wavBytes. accepted go_wav b \<and> same_params go_wav (hd wavBytes) b"
    using assms(2) by blast
  ultimately have run: "fst (ConcatWavBytes go_wav wavBytes w) = Inr ?out"
    using ConcatWavBytes_go_wav [OF assms(1)] by simp
  have hl: "accepted go_wav (hd wavBytes)" "accepted go_wav (last wavBytes)"
    using assms(1) acc by simp_all
  have bd: "supported_depth ?bd"
    using hl(2) by (rule accepted_supported)
  have "last wavBytes \<in> set wavBytes"
    using assms(1) by simp
  with assms(2) have "BitDepth go_wav (last wavBytes) = BitDepth go_wav (hd wavBytes)"
    by blast
  with assms(2) have same: "\<forall>b\<in>set wavBytes. uint (BitDepth go_wav b) = ?bd"
    by simp
  have fixed: "\<forall>v\<in>set ?vs. cut_sample ?bd v = v"
  proof
    fix v assume "v \<in> set ?vs"
    then obtain b where b: "b \<in> set wavBytes" "v \<in> set (samples_of go_wav b)"
      by auto
    with acc same have "accepted go_wav b" "uint (BitDepth go_wav b) = ?bd"
      by simp_all
    from samples_reencode(1) [OF this] b(2) show "cut_sample ?bd v = v"
      by simp
  qed
  have "length (encode_samples ?bd ?vs) \<le> sum_list (map length wavBytes)"
  proof (rule length_encode_concat, rule ballI)
    fix b assume "b \<in> set wavBytes"
    with acc same have "accepted go_wav b" "uint (BitDepth go_wav b) = ?bd"
      by simp_all
    then show "length (encode_samples ?bd (samples_of go_wav b)) \<le> length b"
      by (rule samples_reencode(2))
  qed
  with assms(3) have small: "length (encode_samples ?bd ?vs) mod 2 ^ 32 = length (encode_samples ?bd ?vs)"
    by simp
  have parse: "parse_wav ?out =
     Some (\<lparr>fmt_SampleRate = SampleRate (format_of go_wav (hd wavBytes)),
             fmt_NumChannels = NumChannels (format_of go_wav (hd wavBytes)),
             fmt_BitsPerSample = ?bd\<rparr>, encode_samples ?bd ?vs)"
    using parse_concat_output [OF assms(1) hl] small by simp
  have "accepted go_wav ?out"
    using parse bd by (simp add: accepted_go_wav)
  moreover have "samples_of go_wav ?out = ?vs"
    using go_wav_decoded(2) [OF parse] bd decode_encode_fixed [OF bd fixed] by simp
  moreover have "length ?vs = sum_list (map (\<lambda>b. length (samples_of go_wav b)) wavBytes)"
    by (simp add: length_concat comp_def)
  ultimately show ?thesis
    using run by simp
qed

text \<open>
  Two copies of the 16-bit example file.
\<close>

theorem ConcatWavBytes_roundtrip_witness:
  "[wav_16k_16bit, wav_16k_16bit] \<noteq> [] \<and>
   accepted go_wav wav_16k_16bit \<and> same_params go_wav wav_16k_16bit wav_16k_16bit \<and>
   sum_list (map length [wav_16k_16bit, wav_16k_16bit]) < 2 ^ 32 \<and>
   fresh_name (files empty_tmp) (temp_names empty_tmp) \<noteq> None \<and>
   (\<exists>out. fst (ConcatWavBytes go_wav [wav_16k_16bit, wav_16k_16bit] empty_tmp) = Inr out \<and>
      accepted go_wav out \<and> samples_of go_wav out = [1000, 1000] \<and>
      length (samples_of go_wav out) = 2)"
proof -
  have h: "\<forall>b\<in>set [wav_16k_16bit, wav_16k_16bit].
      accepted go_wav b \<and> same_params go_wav (hd [wav_16k_16bit, wav_16k_16bit]) b \<and>
      BitDepth go_wav b = BitDepth go_wav (hd [wav_16k_16bit, wav_16k_16bit])"
    by (simp add: accepted_examples same_params_def)
  have s: "sum_list (map length [wav_16k_16bit, wav_16k_16bit]) < 2 ^ 32"
    by (simp add: wav_16k_16bit_def)
  have f: "fresh_name (files empty_tmp) (temp_names empty_tmp) \<noteq> None"
    by (simp add: fresh_empty_tmp)
  from ConcatWavBytes_roundtrip [OF _ h s f] show ?thesis
    using s by (auto simp: accepted_examples same_params_def samples_examples fresh_empty_tmp)
qed

text \<open>
  C1 as stated, for inputs that share only sample rate and channel count, fails: a 16-bit
  file with the sample 1000 followed by an 8-bit file with the sample 5 is written at the
  bit depth of the last input, 8, and the output decodes to the samples 232 and 5.
\<close>

theorem ConcatWavBytes_roundtrip_counterexample:
  "accepted go_wav wav_16k_16bit \<and> accepted go_wav wav_16k_8bit \<and>
   same_params go_wav wav_16k_16bit wav_16k_8bit \<and>
   concat (map (samples_of go_wav) [wav_16k_16bit, wav_16k_8bit]) = [1000, 5] \<and>
   samples_of go_wav
     (projr (fst (ConcatWavBytes go_wav [wav_16k_16bit, wav_16k_8bit] empty_tmp))) = [232, 5]"
proof -
  have h: "\<forall>b\<in>set [wav_16k_16bit, wav_16k_8bit].
      accepted go_wav b \<and> same_params go_wav (hd [wav_16k_16bit, wav_16k_8bit]) b"
    by (simp add: accepted_examples same_params_def format_examples)
  have "parse_wav (encoded_file 16000 8 1 1 [0xE8, 0x05]) =
     Some (\<lparr>fmt_SampleRate = 16000, fmt_NumChannels = 1, fmt_BitsPerSample = 8\<rparr>,
           take (length [0xE8, 0x05 :: byte] mod 2 ^ 32) [0xE8, 0x05])"
    by (rule parse_encoded_file) simp_all
  then have "samples_of go_wav (encoded_file 16000 8 1 1 [0xE8, 0x05]) = [232, 5]"
    by (simp add: samples_of_def go_wav_simps wav_FullPCMBuffer_def supported_depth_def
        decode_samples_def samples8_def)
  with run_examples [OF _ h] show ?thesis
    by (simp add: accepted_examples same_params_def format_examples samples_examples
        output_mixed)
qed

text \<open>
  C4: the claim is that the temporary file is released on every exit path and that the call
  leaves no state but the returned buffer. The source closes the file (line 59) and never
  removes it. On the example of one 16-bit file and an empty temporary directory the call
  succeeds, the handle is closed, and the directory holds a new file \<^verbatim>\<open>output-1.wav\<close> with
  the bytes of the output.
\<close>

theorem ConcatWavBytes_leaves_temp_file:
  "files empty_tmp ''output-1.wav'' = None \<and>
   fst (ConcatWavBytes go_wav [wav_16k_16bit] empty_tmp) = Inr wav_16k_16bit \<and>
   files (snd (ConcatWavBytes go_wav [wav_16k_16bit] empty_tmp)) ''output-1.wav'' =
     Some wav_16k_16bit \<and>
   offsets (snd (ConcatWavBytes go_wav [wav_16k_16bit] empty_tmp)) ''output-1.wav'' = None"
proof -
  have h: "\<forall>b\<in>set [wav_16k_16bit]. accepted go_wav b \<and> same_params go_wav (hd [wav_16k_16bit]) b"
    by (simp add: accepted_examples same_params_def)
  have "encode_samples 16 [1000] = [0xE8, 0x03]"
    by (simp add: encode_samples_def encode_sample_def le16_def)
  then have "concat_output [wav_16k_16bit] = encoded_file 16000 16 1 1 [0xE8, 0x03]"
    by (simp add: concat_output_def format_examples depth_examples samples_examples)
  also have "\<dots> = wav_16k_16bit"
    by (simp add: encoded_file_def wav_16k_16bit_def bytes_of_def le16_def le32_def
        signed_divide_int_def)
  finally have "concat_output [wav_16k_16bit] = wav_16k_16bit" .
  with run_examples [OF _ h] show ?thesis
    by (simp add: empty_tmp_def)
qed

end
